theory Spec2Isabelle
  imports Main "HOL-Library.AList"
begin

section \<open>The legacy local cache repository\<close>

text \<open>
  A shallow embedding of \<^verbatim>\<open>LegacyLocalCacheRepository.ts\<close>. The class keeps four
  fields and talks to two things outside itself: the static class
  \<^verbatim>\<open>LocalCacheHelper\<close>, the name-partitioned backing store, and the timers of the
  JavaScript runtime. The fields of the object are a record \<open>repository\<close>. The backing
  store is a parameter \<open>h\<close> of every operation that calls it, with a state of its own
  that the operation takes and returns. The timers are a list.
\<close>

subsection \<open>Cache policies\<close>

text \<open>
  Modelled from the spec: the declaration of the enumeration \<^verbatim>\<open>CachePolicy\<close>
  (\<^verbatim>\<open>./Enumeration/CachePolicy\<close>) is not among the sources. Its members are the
  twelve that the \<^verbatim>\<open>switch\<close> of \<^verbatim>\<open>CalculateResetMsForStatePolicy\<close> names, spelled as
  they are spelled there (\<^verbatim>\<open>SateAfterThirtySeconds\<close> and \<^verbatim>\<open>StateAfterThirtyMinutes\<close>
  are the members the spec's table lists as StaleAfterThirtySeconds and
  StaleAfterThirtyMinutes), and they are pairwise different values.
\<close>

datatype CachePolicy =
    DoNotCache
  | NoReset
  | StaleAfterFiveSeconds
  | StaleAfterTenSeconds
  | SateAfterThirtySeconds
  | StaleAfterOneMinute
  | StaleAfterTwoMinutes
  | StaleAfterFiveMinutes
  | StaleAfterTenMinutes
  | StaleAfterFifteenMinutes
  | StateAfterThirtyMinutes
  | StaleAfterOneHour

text \<open>
  At run time a policy is a plain value, and nothing stops a caller from passing one
  that is no member of the enumeration. \<open>Member p\<close> is the value of the member \<open>p\<close>;
  \<open>Unrecognized n\<close> stands for a value that equals no member (the \<open>n\<close> only tells
  such values apart).
\<close>

datatype policy_value = Member CachePolicy | Unrecognized int

text \<open>
  \<^verbatim>\<open>CalculateResetMsForStatePolicy\<close>: \<^verbatim>\<open>let timeOut = null\<close>, then a \<^verbatim>\<open>switch\<close> with one
  \<^verbatim>\<open>case\<close> per member and no \<^verbatim>\<open>default\<close>. The result is a number or \<^verbatim>\<open>null\<close>:
  \<open>None\<close> is \<^verbatim>\<open>null\<close>. The literals \<^verbatim>\<open>1.8e6\<close> and \<^verbatim>\<open>3.6e6\<close> are the integers
  1800000 and 3600000.
\<close>

definition CalculateResetMsForStatePolicy :: "policy_value \<Rightarrow> int option" where
  "CalculateResetMsForStatePolicy policy =
     (let timeOut = None in
      case policy of
        Member DoNotCache \<Rightarrow> None
      | Member NoReset \<Rightarrow> Some (- 1)
      | Member StaleAfterFiveSeconds \<Rightarrow> Some 5000
      | Member StaleAfterTenSeconds \<Rightarrow> Some 10000
      | Member SateAfterThirtySeconds \<Rightarrow> Some 30000
      | Member StaleAfterOneMinute \<Rightarrow> Some 60000
      | Member StaleAfterTwoMinutes \<Rightarrow> Some 120000
      | Member StaleAfterFiveMinutes \<Rightarrow> Some 300000
      | Member StaleAfterTenMinutes \<Rightarrow> Some 600000
      | Member StaleAfterFifteenMinutes \<Rightarrow> Some 900000
      | Member StateAfterThirtyMinutes \<Rightarrow> Some 1800000
      | Member StaleAfterOneHour \<Rightarrow> Some 3600000
      | Unrecognized _ \<Rightarrow> timeOut)"

subsection \<open>The backing store, as the repository calls it\<close>

text \<open>
  The static class \<^verbatim>\<open>LocalCacheHelper\<close> (\<^verbatim>\<open>./LocalCache/Helper\<close>) is not among the
  sources. The repository calls seven of its methods; the record below has one field
  per method, named and applied as at the call sites, over a state \<open>'s\<close> of the
  helper's own. \<^verbatim>\<open>GetLocalCacheValue\<close> returns the pair \<^verbatim>\<open>[hasKey, cachedValue]\<close> that the
  repository destructures. Every operation of the repository that calls the helper
  takes it as its first argument \<open>h\<close>, so what is proved of the operation holds
  whatever the helper does.
\<close>

record 's LocalCacheHelper =
  RegisterLocalCacheStore :: "string \<Rightarrow> 's \<Rightarrow> 's"
  GetLocalCacheSize :: "string \<Rightarrow> 's \<Rightarrow> nat \<times> 's"
  ClearLocalCacheStore :: "string \<Rightarrow> 's \<Rightarrow> 's"
  GetAllLocalCacheValues :: "string \<Rightarrow> 's \<Rightarrow> (string \<times> string) list \<times> 's"
  GetLocalCacheValue :: "string \<Rightarrow> string \<Rightarrow> 's \<Rightarrow> (bool \<times> string) \<times> 's"
  SetLocalCachedValue :: "string \<Rightarrow> string \<Rightarrow> string \<Rightarrow> 's \<Rightarrow> string \<times> 's"
  DeleteLocalCachedValue :: "string \<Rightarrow> string \<Rightarrow> 's \<Rightarrow> 's"

subsection \<open>Timers of the runtime\<close>

text \<open>
  A repeating timer of the runtime, as \<^verbatim>\<open>setInterval\<close> creates it. The callback of the
  only \<^verbatim>\<open>setInterval\<close> of this class reads nothing but \<^verbatim>\<open>this._Name\<close>, which is never
  assigned after the constructor, so the timer keeps that name. \<open>hasRef\<close> is the flag
  that \<^verbatim>\<open>unref()\<close> drops: whether the timer alone keeps the process from exiting.
\<close>

record timer =
  callbackName :: string
  intervalMs :: int
  hasRef :: bool

text \<open>
  \<^verbatim>\<open>setInterval(callback, ms)\<close> creates a repeating timer and returns its handle, here
  the timer's index in the list of timers. \<^verbatim>\<open>timer.unref()\<close> only drops the timer's
  hold on the event loop: the timer stays scheduled and goes on firing for as long as
  the process runs. Only \<^verbatim>\<open>clearInterval\<close> would cancel it, and this class never calls
  it, so no timer ever leaves the list.
\<close>

definition setInterval :: "string \<Rightarrow> int \<Rightarrow> timer list \<Rightarrow> nat \<times> timer list" where
  "setInterval name ms ts =
     (length ts, ts @ [\<lparr>callbackName = name, intervalMs = ms, hasRef = True\<rparr>])"

definition unref :: "nat \<Rightarrow> timer list \<Rightarrow> timer list" where
  "unref i ts = (if i < length ts then ts[i := (ts ! i)\<lparr>hasRef := False\<rparr>] else ts)"

text \<open>
  The process: the state of the backing store and the timers of the runtime.
\<close>

record 's world =
  backing :: 's
  timers :: "timer list"

subsection \<open>The repository object\<close>

text \<open>
  The four fields of the class. \<open>this_CacheRefreshIntervalTimer\<close> is \<open>None\<close> while
  the field is \<^verbatim>\<open>undefined\<close>.
\<close>

record repository =
  this_Name :: string
  this_DoNotCache :: bool
  this_WasRegisteredForCacheReset :: bool
  this_CacheRefreshIntervalTimer :: "nat option"

text \<open>
  The callback given to \<^verbatim>\<open>setInterval\<close>: one reset tick on the store \<open>name\<close>.
\<close>

definition resetTick :: "'s LocalCacheHelper \<Rightarrow> string \<Rightarrow> 's \<Rightarrow> 's" where
  "resetTick h name s =
     (let (cacheStoreSize, s1) = GetLocalCacheSize h name s in
      if cacheStoreSize > 0 then ClearLocalCacheStore h name s1 else s1)"

text \<open>
  The runtime firing the timer with handle \<open>i\<close> once. A handle that names no timer
  fires nothing.
\<close>

definition fire :: "'s LocalCacheHelper \<Rightarrow> nat \<Rightarrow> 's world \<Rightarrow> 's world" where
  "fire h i w =
     (if i < length (timers w)
      then w\<lparr>backing := resetTick h (callbackName (timers w ! i)) (backing w)\<rparr>
      else w)"

definition RegisterResetRoundRobin ::
  "policy_value \<Rightarrow> repository \<Rightarrow> timer list \<Rightarrow> repository \<times> timer list" where
  "RegisterResetRoundRobin policy this ts =
     (if \<not> this_WasRegisteredForCacheReset this then
        let cacheRefreshInterval = CalculateResetMsForStatePolicy policy;
            this1 = this\<lparr>this_DoNotCache := (cacheRefreshInterval = None)\<rparr>;
            this2 = this1\<lparr>this_WasRegisteredForCacheReset := True\<rparr>
        in if cacheRefreshInterval \<noteq> None \<and> cacheRefreshInterval \<noteq> Some (- 1) then
             let (i, ts1) = setInterval (this_Name this2) (the cacheRefreshInterval) ts
             in (this2\<lparr>this_CacheRefreshIntervalTimer := Some i\<rparr>, ts1)
           else (this2, ts)
      else (this, ts))"

text \<open>
  The constructor. The field initialisers (\<^verbatim>\<open>_DoNotCache = false\<close>, the latch
  \<^verbatim>\<open>WasRegisteredForCacheReset: false\<close>) run before its body.
\<close>

definition new_LegacyLocalCacheRepository ::
  "'s LocalCacheHelper \<Rightarrow> string \<Rightarrow> policy_value \<Rightarrow> 's world \<Rightarrow> repository \<times> 's world" where
  "new_LegacyLocalCacheRepository h cacheStoreName policy w =
     (let this = \<lparr>this_Name = cacheStoreName, this_DoNotCache = False,
                  this_WasRegisteredForCacheReset = False,
                  this_CacheRefreshIntervalTimer = None\<rparr>;
          s1 = RegisterLocalCacheStore h cacheStoreName (backing w);
          (this1, ts1) = RegisterResetRoundRobin policy this (timers w)
      in (this1, \<lparr>backing = s1, timers = ts1\<rparr>))"

definition IsCacheClear :: "'s LocalCacheHelper \<Rightarrow> repository \<Rightarrow> 's \<Rightarrow> bool \<times> 's" where
  "IsCacheClear h this s =
     (let (n, s1) = GetLocalCacheSize h (this_Name this) s in (n = 0, s1))"

definition KillReset :: "repository \<Rightarrow> timer list \<Rightarrow> timer list" where
  "KillReset this ts =
     (case this_CacheRefreshIntervalTimer this of
        Some i \<Rightarrow> unref i ts
      | None \<Rightarrow> ts)"

definition Clear :: "'s LocalCacheHelper \<Rightarrow> repository \<Rightarrow> 's \<Rightarrow> 's" where
  "Clear h this s = ClearLocalCacheStore h (this_Name this) s"

definition GetAllCachedValues ::
  "'s LocalCacheHelper \<Rightarrow> repository \<Rightarrow> 's \<Rightarrow> (string \<times> string) list \<times> 's" where
  "GetAllCachedValues h this s = GetAllLocalCacheValues h (this_Name this) s"

text \<open>
  The reads return a pair \<^verbatim>\<open>[bool, value]\<close>; \<open>None\<close> in the second component is
  \<^verbatim>\<open>null\<close>.
\<close>

definition GetCachedValue ::
  "'s LocalCacheHelper \<Rightarrow> repository \<Rightarrow> string \<Rightarrow> 's \<Rightarrow> (bool \<times> string option) \<times> 's" where
  "GetCachedValue h this key s =
     (if this_DoNotCache this then ((False, None), s)
      else
        let ((hasKey, cachedValue), s1) = GetLocalCacheValue h (this_Name this) key s in
        if hasKey then ((True, Some cachedValue), s1)
        else ((False, None), s1))"

text \<open>
  What a typed read hands back as a \<^verbatim>\<open>T\<close>: a value that really was parsed, or, through
  the cast \<^verbatim>\<open><T>(<unknown>cachedValue)\<close>, the raw string itself.
\<close>

datatype 'a coerced = Typed 'a | Raw string

text \<open>
  \<^verbatim>\<open>JSON.parse\<close> and \<^verbatim>\<open>JSON.stringify\<close> belong to the runtime and are parameters:
  \<open>JSON_parse s = None\<close> when \<^verbatim>\<open>JSON.parse(s)\<close> throws, which is what the
  \<^verbatim>\<open>catch\<close> of the source catches; \<open>'a\<close> is the type of the values that
  \<^verbatim>\<open>JSON.stringify\<close> turns into a string.
\<close>

definition GetCachedValueJson ::
  "(string \<Rightarrow> 'a option) \<Rightarrow> 's LocalCacheHelper \<Rightarrow> repository \<Rightarrow> string \<Rightarrow> bool \<Rightarrow> 's
     \<Rightarrow> (bool \<times> 'a coerced option) \<times> 's" where
  "GetCachedValueJson JSON_parse h this key returnTrueValueIfParseFail s =
     (if this_DoNotCache this then ((False, None), s)
      else
        let ((hasKey, cachedValue), s1) = GetLocalCacheValue h (this_Name this) key s in
        if hasKey then
          (case JSON_parse cachedValue of
             Some t \<Rightarrow> ((True, Some (Typed t)), s1)
           | None \<Rightarrow>
               if returnTrueValueIfParseFail then ((True, Some (Raw cachedValue)), s1)
               else ((False, None), s1))
        else ((False, None), s1))"

text \<open>
  A JavaScript number as \<^verbatim>\<open>parseFloat\<close> returns it: not-a-number, or a number of a
  type \<open>'n\<close> that is left open. \<^verbatim>\<open>parseFloat\<close> and \<^verbatim>\<open>toString\<close> are parameters.
\<close>

datatype 'n js_number = NaN | Number 'n

definition isNaN :: "'n js_number \<Rightarrow> bool" where
  "isNaN x = (case x of NaN \<Rightarrow> True | Number _ \<Rightarrow> False)"

definition GetCachedValueNumber ::
  "(string \<Rightarrow> 'n js_number) \<Rightarrow> 's LocalCacheHelper \<Rightarrow> repository \<Rightarrow> string \<Rightarrow> bool \<Rightarrow> 's
     \<Rightarrow> (bool \<times> 'n js_number coerced option) \<times> 's" where
  "GetCachedValueNumber parseFloat h this key returnTrueValueIfParseFail s =
     (if this_DoNotCache this then ((False, None), s)
      else
        let ((hasKey, cachedValue), s1) = GetLocalCacheValue h (this_Name this) key s in
        if hasKey then
          (let val = parseFloat cachedValue in
           if isNaN val then
             (if returnTrueValueIfParseFail then ((True, Some (Raw cachedValue)), s1)
              else ((False, None), s1))
           else ((True, Some (Typed val)), s1))
        else ((False, None), s1))"

text \<open>The writes return the value, or \<^verbatim>\<open>null\<close> (\<open>None\<close>).\<close>

definition SetCachedValue ::
  "'s LocalCacheHelper \<Rightarrow> repository \<Rightarrow> string \<Rightarrow> string \<Rightarrow> 's \<Rightarrow> string option \<times> 's" where
  "SetCachedValue h this key v s =
     (if this_DoNotCache this then (None, s)
      else let (r, s1) = SetLocalCachedValue h (this_Name this) key v s in (Some r, s1))"

definition SetCachedValueJson ::
  "('a \<Rightarrow> string) \<Rightarrow> 's LocalCacheHelper \<Rightarrow> repository \<Rightarrow> string \<Rightarrow> 'a \<Rightarrow> 's
     \<Rightarrow> 'a option \<times> 's" where
  "SetCachedValueJson JSON_stringify h this key v s =
     (if this_DoNotCache this then (None, s)
      else
        let (_, s1) = SetLocalCachedValue h (this_Name this) key (JSON_stringify v) s
        in (Some v, s1))"

definition SetCachedValueNumber ::
  "('n js_number \<Rightarrow> string) \<Rightarrow> 's LocalCacheHelper \<Rightarrow> repository \<Rightarrow> string
     \<Rightarrow> 'n js_number \<Rightarrow> 's \<Rightarrow> 'n js_number option \<times> 's" where
  "SetCachedValueNumber toString h this key v s =
     (if this_DoNotCache this then (None, s)
      else
        let (_, s1) = SetLocalCachedValue h (this_Name this) key (toString v) s
        in (Some v, s1))"

definition GetCachedValueOrCacheNewValue ::
  "'s LocalCacheHelper \<Rightarrow> repository \<Rightarrow> string \<Rightarrow> string \<Rightarrow> 's \<Rightarrow> string option \<times> 's" where
  "GetCachedValueOrCacheNewValue h this key v s =
     (let ((presentInCache, cachedValue), s1) = GetCachedValue h this key s in
      if presentInCache then (cachedValue, s1)
      else SetCachedValue h this key v s1)"

text \<open>
  The JSON variant calls \<^verbatim>\<open>GetCachedValueJson<T>(key)\<close> with one argument, so the flag
  takes its default \<^verbatim>\<open>false\<close>. A hit hands back what the read returned; a miss hands
  back what \<^verbatim>\<open>SetCachedValueJson\<close> returned, the value itself or \<^verbatim>\<open>null\<close>.
\<close>

definition GetCachedValueOrCacheNewValueJson ::
  "(string \<Rightarrow> 'a option) \<Rightarrow> ('a \<Rightarrow> string) \<Rightarrow> 's LocalCacheHelper \<Rightarrow> repository
     \<Rightarrow> string \<Rightarrow> 'a \<Rightarrow> 's \<Rightarrow> 'a coerced option \<times> 's" where
  "GetCachedValueOrCacheNewValueJson JSON_parse JSON_stringify h this key v s =
     (let ((presentInCache, cachedValue), s1) = GetCachedValueJson JSON_parse h this key False s in
      if presentInCache then (cachedValue, s1)
      else
        let (r, s2) = SetCachedValueJson JSON_stringify h this key v s1
        in (map_option Typed r, s2))"

definition RemoveKey :: "'s LocalCacheHelper \<Rightarrow> repository \<Rightarrow> string \<Rightarrow> 's \<Rightarrow> 's" where
  "RemoveKey h this key s = DeleteLocalCachedValue h (this_Name this) key s"

text \<open>
  The registration routine called once per element of a list of policies, one call
  after the other on the same instance. The constructor calls it once; this is the
  routine "invoked more than once".
\<close>

fun RegisterResetRoundRobin_repeatedly ::
  "policy_value list \<Rightarrow> repository \<Rightarrow> timer list \<Rightarrow> repository \<times> timer list" where
  "RegisterResetRoundRobin_repeatedly [] this ts = (this, ts)"
| "RegisterResetRoundRobin_repeatedly (p # ps) this ts =
     (let (this1, ts1) = RegisterResetRoundRobin p this ts
      in RegisterResetRoundRobin_repeatedly ps this1 ts1)"

subsection \<open>A backing store to run the repository on\<close>

text \<open>
  The spec describes the backing store as "a mapping from store-name to an ordered
  mapping from key (string) to raw value (string)", a partition being "created on first
  registration of a store name; cleared (all keys removed, store itself persists) on
  reset-tick or explicit clear call; never deleted". Here a partition is an association
  list in insertion order. Only registration creates a partition: on a name that was
  never registered the reads see nothing and the writes change nothing. (The repository
  registers its name in its constructor, before any other call.) The state also keeps
  one entry per call made to the store, in \<open>calls\<close>, so that it can be seen which
  calls a run of the repository made.
\<close>

datatype helper_call =
    RegisterCall string
  | SizeCall string
  | ClearCall string
  | GetAllCall string
  | GetCall string string
  | SetCall string string string
  | DeleteCall string string

record store_state =
  stores :: "string \<rightharpoonup> (string \<times> string) list"
  calls :: "helper_call list"

definition logCall :: "helper_call \<Rightarrow> store_state \<Rightarrow> store_state" where
  "logCall c s = s\<lparr>calls := calls s @ [c]\<rparr>"

text \<open>
  Modelled from the spec: \<^verbatim>\<open>LocalCacheHelper.RegisterLocalCacheStore\<close> is missing.
  "RegisterStore(name): idempotent creation of a partition; safe to call repeatedly."
\<close>

definition store_Register :: "string \<Rightarrow> store_state \<Rightarrow> store_state" where
  "store_Register name s =
     (let s1 = logCall (RegisterCall name) s in
      case stores s1 name of
        None \<Rightarrow> s1\<lparr>stores := (stores s1)(name \<mapsto> [])\<rparr>
      | Some _ \<Rightarrow> s1)"

text \<open>
  Modelled from the spec: \<^verbatim>\<open>LocalCacheHelper.GetLocalCacheSize\<close> is missing.
  "GetSize(name) -> integer: current key count in partition."
\<close>

definition store_GetSize :: "string \<Rightarrow> store_state \<Rightarrow> nat \<times> store_state" where
  "store_GetSize name s =
     (case stores s name of
        None \<Rightarrow> (0, logCall (SizeCall name) s)
      | Some m \<Rightarrow> (length m, logCall (SizeCall name) s))"

text \<open>
  Modelled from the spec: \<^verbatim>\<open>LocalCacheHelper.ClearLocalCacheStore\<close> is missing.
  "Clear(name): removes all keys in partition; partition itself persists."
\<close>

definition store_Clear :: "string \<Rightarrow> store_state \<Rightarrow> store_state" where
  "store_Clear name s =
     (let s1 = logCall (ClearCall name) s in
      case stores s1 name of
        None \<Rightarrow> s1
      | Some _ \<Rightarrow> s1\<lparr>stores := (stores s1)(name \<mapsto> [])\<rparr>)"

text \<open>
  Modelled from the spec: \<^verbatim>\<open>LocalCacheHelper.GetAllLocalCacheValues\<close> is missing.
  "GetAll(name) -> mapping<string,string>: snapshot of all entries."
\<close>

definition store_GetAll :: "string \<Rightarrow> store_state \<Rightarrow> (string \<times> string) list \<times> store_state" where
  "store_GetAll name s =
     (case stores s name of
        None \<Rightarrow> ([], logCall (GetAllCall name) s)
      | Some m \<Rightarrow> (m, logCall (GetAllCall name) s))"

text \<open>
  Modelled from the spec: \<^verbatim>\<open>LocalCacheHelper.GetLocalCacheValue\<close> is missing.
  "Get(name, key) -> (found: bool, value: string)." On a miss the value is the empty
  string; the repository never reads it.
\<close>

definition store_Get :: "string \<Rightarrow> string \<Rightarrow> store_state \<Rightarrow> (bool \<times> string) \<times> store_state" where
  "store_Get name key s =
     (case stores s name of
        None \<Rightarrow> ((False, []), logCall (GetCall name key) s)
      | Some m \<Rightarrow>
          (case map_of m key of
             None \<Rightarrow> ((False, []), logCall (GetCall name key) s)
           | Some v \<Rightarrow> ((True, v), logCall (GetCall name key) s)))"

text \<open>
  Modelled from the spec: \<^verbatim>\<open>LocalCacheHelper.SetLocalCachedValue\<close> is missing.
  "Set(name, key, value: string) -> string (echoes stored value)." A key that is already
  there keeps its place, a new key goes to the end.
\<close>

definition store_Set :: "string \<Rightarrow> string \<Rightarrow> string \<Rightarrow> store_state \<Rightarrow> string \<times> store_state" where
  "store_Set name key v s =
     (let s1 = logCall (SetCall name key v) s in
      case stores s1 name of
        None \<Rightarrow> (v, s1)
      | Some m \<Rightarrow> (v, s1\<lparr>stores := (stores s1)(name \<mapsto> AList.update key v m)\<rparr>))"

text \<open>
  Modelled from the spec: \<^verbatim>\<open>LocalCacheHelper.DeleteLocalCachedValue\<close> is missing.
  "Delete(name, key): removes one entry if present."
\<close>

definition store_Delete :: "string \<Rightarrow> string \<Rightarrow> store_state \<Rightarrow> store_state" where
  "store_Delete name key s =
     (let s1 = logCall (DeleteCall name key) s in
      case stores s1 name of
        None \<Rightarrow> s1
      | Some m \<Rightarrow> s1\<lparr>stores := (stores s1)(name \<mapsto> AList.delete key m)\<rparr>)"

text \<open>
  Modelled from the spec: the class \<^verbatim>\<open>LocalCacheHelper\<close> is missing; this is the
  backing store of the spec, its seven operations under the names the repository calls.
\<close>

definition specHelper :: "store_state LocalCacheHelper" where
  "specHelper =
     \<lparr>RegisterLocalCacheStore = store_Register,
      GetLocalCacheSize = store_GetSize,
      ClearLocalCacheStore = store_Clear,
      GetAllLocalCacheValues = store_GetAll,
      GetLocalCacheValue = store_Get,
      SetLocalCachedValue = store_Set,
      DeleteLocalCachedValue = store_Delete\<rparr>"

text \<open>
  \<open>registered name s\<close>: the partition \<open>name\<close> exists. \<open>stored s name key\<close>: the raw
  string that the partition \<open>name\<close> holds under \<open>key\<close>, if any.
\<close>

definition registered :: "string \<Rightarrow> store_state \<Rightarrow> bool" where
  "registered name s = (stores s name \<noteq> None)"

definition stored :: "store_state \<Rightarrow> string \<Rightarrow> string \<Rightarrow> string option" where
  "stored s name key = (case stores s name of None \<Rightarrow> None | Some m \<Rightarrow> map_of m key)"

text \<open>
  \<open>freshWorld\<close> is a process that has just started: no partition, no call, no timer.
  \<open>populatedStore\<close> is a backing store in which the partition \<^verbatim>\<open>s\<close> already holds the
  string \<^verbatim>\<open>v\<close> under the key \<^verbatim>\<open>k\<close>, as after a write by any repository on that name;
  \<open>populatedWorld\<close> is a process with that store and no timer.
\<close>

definition freshWorld :: "store_state world" where
  "freshWorld = \<lparr>backing = \<lparr>stores = Map.empty, calls = []\<rparr>, timers = []\<rparr>"

definition populatedStore :: store_state where
  "populatedStore = \<lparr>stores = [''s'' \<mapsto> [(''k'', ''v'')]], calls = []\<rparr>"

definition populatedWorld :: "store_state world" where
  "populatedWorld = \<lparr>backing = populatedStore, timers = []\<rparr>"

section \<open>Basic facts\<close>

lemmas store_defs = logCall_def store_Register_def store_GetSize_def store_Clear_def
  store_GetAll_def store_Get_def store_Set_def store_Delete_def

lemmas construction_defs = new_LegacyLocalCacheRepository_def RegisterResetRoundRobin_def
  CalculateResetMsForStatePolicy_def setInterval_def

subsection \<open>The backing store of the spec\<close>

lemma specHelper_fields [simp]:
  "RegisterLocalCacheStore specHelper = store_Register"
  "GetLocalCacheSize specHelper = store_GetSize"
  "ClearLocalCacheStore specHelper = store_Clear"
  "GetAllLocalCacheValues specHelper = store_GetAll"
  "GetLocalCacheValue specHelper = store_Get"
  "SetLocalCachedValue specHelper = store_Set"
  "DeleteLocalCachedValue specHelper = store_Delete"
  by (simp_all add: specHelper_def)

lemma logCall_fields [simp]:
  "stores (logCall c s) = stores s"
  "calls (logCall c s) = calls s @ [c]"
  by (simp_all add: logCall_def)

lemma registered_logCall [simp]: "registered name (logCall c s) = registered name s"
  by (simp add: registered_def)

lemma stored_logCall [simp]: "stored (logCall c s) name key = stored s name key"
  by (simp add: stored_def)

lemma store_Get_stored:
  "store_Get name key s =
     ((case stored s name key of None \<Rightarrow> (False, []) | Some v \<Rightarrow> (True, v)),
      logCall (GetCall name key) s)"
  by (simp add: store_Get_def stored_def split: option.splits)

lemma store_Set_echo: "fst (store_Set name key v s) = v"
  by (simp add: store_Set_def Let_def split: option.splits)

lemma store_Set_calls: "calls (snd (store_Set name key v s)) = calls s @ [SetCall name key v]"
  by (simp add: store_Set_def Let_def split: option.splits)

lemma store_Set_stored:
  assumes "registered name s"
  shows "stored (snd (store_Set name key v s)) name key' =
           (if key' = key then Some v else stored s name key')"
proof -
  from assms obtain m where m: "stores s name = Some m"
    by (auto simp add: registered_def)
  then show ?thesis
    by (simp add: store_Set_def stored_def Let_def AList.update_conv')
qed

lemma store_Set_registered: "registered n (snd (store_Set name key v s)) = registered n s"
  by (simp add: store_Set_def registered_def Let_def split: option.splits)

lemma store_GetSize_calls:
  "snd (store_GetSize name s) = logCall (SizeCall name) s"
  by (simp add: store_GetSize_def split: option.splits)

lemma store_Clear_fields:
  "stores (store_Clear name s) = (if registered name s then (stores s)(name \<mapsto> []) else stores s)"
  "calls (store_Clear name s) = calls s @ [ClearCall name]"
  by (auto simp add: store_Clear_def registered_def Let_def split: option.splits)

text \<open>
  No operation of the backing store removes a partition: a store that is registered
  stays registered.
\<close>

lemma registered_preserved:
  assumes "registered n s"
  shows "registered n (store_Register name s)"
    and "registered n (snd (store_GetSize name s))"
    and "registered n (store_Clear name s)"
    and "registered n (snd (store_GetAll name s))"
    and "registered n (snd (store_Get name key s))"
    and "registered n (snd (store_Set name key v s))"
    and "registered n (store_Delete name key s)"
  using assms
  by (auto simp add: registered_def store_defs Let_def split: option.splits)

lemma store_GetSize_positive: "0 < fst (store_GetSize name s) \<Longrightarrow> registered name s"
  by (simp add: store_GetSize_def registered_def split: option.splits)

subsection \<open>Construction\<close>

lemma new_DoNotCache:
  "this_DoNotCache (fst (new_LegacyLocalCacheRepository h name policy w0))
     = (CalculateResetMsForStatePolicy policy = None)"
  by (simp add: new_LegacyLocalCacheRepository_def RegisterResetRoundRobin_def Let_def split_def)

lemma new_Name:
  "this_Name (fst (new_LegacyLocalCacheRepository h name policy w0)) = name"
  by (simp add: new_LegacyLocalCacheRepository_def RegisterResetRoundRobin_def Let_def split_def)

lemma new_backing:
  "backing (snd (new_LegacyLocalCacheRepository h name policy w0))
     = RegisterLocalCacheStore h name (backing w0)"
  by (simp add: new_LegacyLocalCacheRepository_def Let_def split_def)

lemma new_registered:
  "registered name (backing (snd (new_LegacyLocalCacheRepository specHelper name policy w0)))"
  by (simp add: new_backing registered_def store_Register_def Let_def split: option.splits)

lemma interval_positive:
  assumes "CalculateResetMsForStatePolicy p = Some n" and "n \<noteq> - 1"
  shows "0 < n"
proof (cases p)
  case (Member m)
  with assms show ?thesis
    by (cases m) (simp_all add: CalculateResetMsForStatePolicy_def)
next
  case (Unrecognized x)
  with assms show ?thesis
    by (simp add: CalculateResetMsForStatePolicy_def)
qed

lemma RegisterResetRoundRobin_latched:
  "this_WasRegisteredForCacheReset this \<Longrightarrow> RegisterResetRoundRobin p this ts = (this, ts)"
  by (simp add: RegisterResetRoundRobin_def)

lemma RegisterResetRoundRobin_sets_latch:
  "this_WasRegisteredForCacheReset (fst (RegisterResetRoundRobin p this ts))"
  by (simp add: RegisterResetRoundRobin_def Let_def split_def)

lemma RegisterResetRoundRobin_timers:
  "snd (RegisterResetRoundRobin p this ts) =
     (if \<not> this_WasRegisteredForCacheReset this
         \<and> CalculateResetMsForStatePolicy p \<noteq> None
         \<and> CalculateResetMsForStatePolicy p \<noteq> Some (- 1)
      then ts @ [\<lparr>callbackName = this_Name this,
                   intervalMs = the (CalculateResetMsForStatePolicy p), hasRef = True\<rparr>]
      else ts)"
  by (simp add: RegisterResetRoundRobin_def setInterval_def Let_def split_def)

lemma repeatedly_latched:
  "this_WasRegisteredForCacheReset this \<Longrightarrow>
     RegisterResetRoundRobin_repeatedly ps this ts = (this, ts)"
  by (induction ps) (simp_all add: RegisterResetRoundRobin_latched)

lemma repeatedly_Cons:
  "RegisterResetRoundRobin_repeatedly (p # ps) this ts = RegisterResetRoundRobin p this ts"
proof -
  obtain this1 ts1 where r: "RegisterResetRoundRobin p this ts = (this1, ts1)"
    by (cases "RegisterResetRoundRobin p this ts")
  have "this_WasRegisteredForCacheReset this1"
    using RegisterResetRoundRobin_sets_latch [of p this ts] by (simp add: r)
  then show ?thesis
    by (simp add: r repeatedly_latched)
qed

lemma new_timers:
  "timers (snd (new_LegacyLocalCacheRepository h name p w0)) =
     (if CalculateResetMsForStatePolicy p \<noteq> None
         \<and> CalculateResetMsForStatePolicy p \<noteq> Some (- 1)
      then timers w0 @ [\<lparr>callbackName = name,
                          intervalMs = the (CalculateResetMsForStatePolicy p), hasRef = True\<rparr>]
      else timers w0)"
proof -
  have "timers (snd (new_LegacyLocalCacheRepository h name p w0))
      = snd (RegisterResetRoundRobin p
          \<lparr>this_Name = name, this_DoNotCache = False, this_WasRegisteredForCacheReset = False,
           this_CacheRefreshIntervalTimer = None\<rparr> (timers w0))"
    by (simp add: new_LegacyLocalCacheRepository_def Let_def split_def)
  then show ?thesis
    by (simp add: RegisterResetRoundRobin_timers)
qed

subsection \<open>The accessors of a repository that caches\<close>

lemma GetCachedValue_hit:
  assumes "\<not> this_DoNotCache this"
    and "fst (GetLocalCacheValue h (this_Name this) k s) = (True, c)"
  shows "GetCachedValue h this k s = ((True, Some c), snd (GetLocalCacheValue h (this_Name this) k s))"
  using assms by (simp add: GetCachedValue_def split_def)

lemma GetCachedValue_miss:
  assumes "\<not> this_DoNotCache this"
    and "\<not> fst (fst (GetLocalCacheValue h (this_Name this) k s))"
  shows "GetCachedValue h this k s = ((False, None), snd (GetLocalCacheValue h (this_Name this) k s))"
  using assms by (simp add: GetCachedValue_def split_def)

lemma SetCachedValue_enabled:
  assumes "\<not> this_DoNotCache this"
  shows "SetCachedValue h this k v s =
           (Some (fst (SetLocalCachedValue h (this_Name this) k v s)),
            snd (SetLocalCachedValue h (this_Name this) k v s))"
  using assms by (simp add: SetCachedValue_def split_def Let_def)

lemma GetCachedValueOrCacheNewValue_hit:
  assumes "\<not> this_DoNotCache this"
    and "fst (GetLocalCacheValue h (this_Name this) k s) = (True, c)"
  shows "GetCachedValueOrCacheNewValue h this k v s
           = (Some c, snd (GetLocalCacheValue h (this_Name this) k s))"
  using assms
  by (simp add: GetCachedValueOrCacheNewValue_def GetCachedValue_hit)

lemma GetCachedValueOrCacheNewValue_miss:
  assumes "\<not> this_DoNotCache this"
    and "\<not> fst (fst (GetLocalCacheValue h (this_Name this) k s))"
  shows "GetCachedValueOrCacheNewValue h this k v s
           = (Some (fst (SetLocalCachedValue h (this_Name this) k v
                      (snd (GetLocalCacheValue h (this_Name this) k s)))),
              snd (SetLocalCachedValue h (this_Name this) k v
                      (snd (GetLocalCacheValue h (this_Name this) k s))))"
  using assms
  by (simp add: GetCachedValueOrCacheNewValue_def GetCachedValue_miss SetCachedValue_enabled)

subsection \<open>Timers\<close>

lemma KillReset_frame:
  "length (KillReset this ts) = length ts"
  "callbackName (KillReset this ts ! i) = callbackName (ts ! i)"
  "intervalMs (KillReset this ts ! i) = intervalMs (ts ! i)"
  by (simp_all add: KillReset_def unref_def nth_list_update split: option.splits)

lemma KillReset_idempotent: "KillReset this (KillReset this ts) = KillReset this ts"
  by (simp add: KillReset_def unref_def split: option.splits)

lemma KillReset_without_timer:
  "this_CacheRefreshIntervalTimer this = None \<Longrightarrow> KillReset this ts = ts"
  by (simp add: KillReset_def)

text \<open>
  A tick after \<^verbatim>\<open>KillReset\<close> does to the backing store exactly what it does without it,
  whatever the backing store is.
\<close>

lemma fire_after_KillReset:
  "backing (fire h i (w\<lparr>timers := KillReset this (timers w)\<rparr>)) = backing (fire h i w)"
  by (simp add: fire_def KillReset_frame)

section \<open>The policy resolver\<close>

text \<open>
  C1. For every member of the expiration-policy enumeration the resolver returns the
  interval of the spec's table: \<^verbatim>\<open>null\<close>, the disabled sentinel, for DoNotCache; \<open>-1\<close>,
  the never-refresh sentinel, for NoReset; and 5000, 10000, 30000, 60000, 120000,
  300000, 600000, 900000, 1800000 and 3600000 milliseconds for the ten members from
  five seconds to one hour.
\<close>

theorem CalculateResetMsForStatePolicy_table:
  "CalculateResetMsForStatePolicy (Member DoNotCache) = None
   \<and> CalculateResetMsForStatePolicy (Member NoReset) = Some (- 1)
   \<and> CalculateResetMsForStatePolicy (Member StaleAfterFiveSeconds) = Some 5000
   \<and> CalculateResetMsForStatePolicy (Member StaleAfterTenSeconds) = Some 10000
   \<and> CalculateResetMsForStatePolicy (Member SateAfterThirtySeconds) = Some 30000
   \<and> CalculateResetMsForStatePolicy (Member StaleAfterOneMinute) = Some 60000
   \<and> CalculateResetMsForStatePolicy (Member StaleAfterTwoMinutes) = Some 120000
   \<and> CalculateResetMsForStatePolicy (Member StaleAfterFiveMinutes) = Some 300000
   \<and> CalculateResetMsForStatePolicy (Member StaleAfterTenMinutes) = Some 600000
   \<and> CalculateResetMsForStatePolicy (Member StaleAfterFifteenMinutes) = Some 900000
   \<and> CalculateResetMsForStatePolicy (Member StateAfterThirtyMinutes) = Some 1800000
   \<and> CalculateResetMsForStatePolicy (Member StaleAfterOneHour) = Some 3600000"
  by (simp add: CalculateResetMsForStatePolicy_def)

text \<open>
  C2, as amended. A policy value outside the enumeration leaves \<^verbatim>\<open>timeOut\<close> at its
  initial \<^verbatim>\<open>null\<close>, the value DoNotCache resolves to. The constructor then builds
  exactly the repository it builds for DoNotCache: no timer is started and caching is
  disabled, so that reads miss and writes do nothing, whatever the backing store is and
  holds, and the backing store is not reached.
\<close>

theorem unrecognized_policy_disables:
  "CalculateResetMsForStatePolicy (Unrecognized n) = None
   \<and> new_LegacyLocalCacheRepository h name (Unrecognized n) w0
       = new_LegacyLocalCacheRepository h name (Member DoNotCache) w0
   \<and> this_DoNotCache (fst (new_LegacyLocalCacheRepository h name (Unrecognized n) w0))
   \<and> this_CacheRefreshIntervalTimer
        (fst (new_LegacyLocalCacheRepository h name (Unrecognized n) w0)) = None
   \<and> timers (snd (new_LegacyLocalCacheRepository h name (Unrecognized n) w0)) = timers w0
   \<and> GetCachedValue h (fst (new_LegacyLocalCacheRepository h name (Unrecognized n) w0)) k s
       = ((False, None), s)
   \<and> SetCachedValue h (fst (new_LegacyLocalCacheRepository h name (Unrecognized n) w0)) k v s
       = (None, s)"
proof -
  have resolve: "CalculateResetMsForStatePolicy (Unrecognized n) = None"
    by (simp add: CalculateResetMsForStatePolicy_def)
  have same: "CalculateResetMsForStatePolicy (Member DoNotCache) = None"
    by (simp add: CalculateResetMsForStatePolicy_def)
  have build: "new_LegacyLocalCacheRepository h name (Unrecognized n) w0
      = new_LegacyLocalCacheRepository h name (Member DoNotCache) w0"
    by (simp add: new_LegacyLocalCacheRepository_def RegisterResetRoundRobin_def resolve same)
  have off: "this_DoNotCache (fst (new_LegacyLocalCacheRepository h name (Unrecognized n) w0))"
    by (simp add: new_DoNotCache resolve)
  have no_handle: "this_CacheRefreshIntervalTimer
      (fst (new_LegacyLocalCacheRepository h name (Unrecognized n) w0)) = None"
    by (simp add: new_LegacyLocalCacheRepository_def RegisterResetRoundRobin_def resolve)
  have no_timer: "timers (snd (new_LegacyLocalCacheRepository h name (Unrecognized n) w0)) = timers w0"
    by (simp add: new_timers resolve)
  show ?thesis
    by (simp add: resolve build [symmetric] off no_handle no_timer
        GetCachedValue_def SetCachedValue_def)
qed

text \<open>
  C2 as stated fails. In a fresh process a repository built on the store \<^verbatim>\<open>s\<close> with
  an unrecognized policy value has its do-not-cache flag set, and its write of \<^verbatim>\<open>v\<close>
  under \<^verbatim>\<open>k\<close> returns \<^verbatim>\<open>null\<close> and leaves the partition empty; the same steps with
  NoReset return \<^verbatim>\<open>v\<close> and store it.
\<close>

theorem unrecognized_policy_counterexample:
  "this_DoNotCache (fst (new_LegacyLocalCacheRepository specHelper ''s'' (Unrecognized 7) freshWorld))
   \<and> \<not> this_DoNotCache
         (fst (new_LegacyLocalCacheRepository specHelper ''s'' (Member NoReset) freshWorld))
   \<and> fst (SetCachedValue specHelper
        (fst (new_LegacyLocalCacheRepository specHelper ''s'' (Unrecognized 7) freshWorld))
        ''k'' ''v''
        (backing (snd (new_LegacyLocalCacheRepository specHelper ''s'' (Unrecognized 7) freshWorld))))
       = None
   \<and> stores (snd (SetCachedValue specHelper
        (fst (new_LegacyLocalCacheRepository specHelper ''s'' (Unrecognized 7) freshWorld))
        ''k'' ''v''
        (backing (snd (new_LegacyLocalCacheRepository specHelper ''s'' (Unrecognized 7) freshWorld)))))
        ''s''
       = Some []
   \<and> fst (SetCachedValue specHelper
        (fst (new_LegacyLocalCacheRepository specHelper ''s'' (Member NoReset) freshWorld))
        ''k'' ''v''
        (backing (snd (new_LegacyLocalCacheRepository specHelper ''s'' (Member NoReset) freshWorld))))
       = Some ''v''
   \<and> stores (snd (SetCachedValue specHelper
        (fst (new_LegacyLocalCacheRepository specHelper ''s'' (Member NoReset) freshWorld))
        ''k'' ''v''
        (backing (snd (new_LegacyLocalCacheRepository specHelper ''s'' (Member NoReset) freshWorld)))))
        ''s''
       = Some [(''k'', ''v'')]"
  by (simp add: freshWorld_def new_DoNotCache new_Name new_backing
      CalculateResetMsForStatePolicy_def SetCachedValue_def store_defs Let_def)

section \<open>The do-not-cache policy\<close>

text \<open>
  C3, as amended. For a repository constructed with the DoNotCache policy, every read
  (raw, JSON, number), every write (raw, JSON, number) and both get-or-populate calls
  return the miss or no-op result whatever the backing store is and holds, and hand its
  state back as it was: the backing store is neither asked nor changed. The other
  operations do not look at the flag and do reach the backing store: the constructor
  registers the store's name, \<^verbatim>\<open>RemoveKey\<close> is the store's delete, \<^verbatim>\<open>Clear\<close> the store's
  clear, \<^verbatim>\<open>GetAllCachedValues\<close> the store's enumeration, and \<^verbatim>\<open>IsCacheClear\<close> asks the
  store for its size, each on the repository's name.
\<close>

theorem DoNotCache_accessors_bypass_store:
  fixes JSON_parse :: "string \<Rightarrow> 'a option" and JSON_stringify :: "'a \<Rightarrow> string"
    and parseFloat :: "string \<Rightarrow> 'n js_number" and toString :: "'n js_number \<Rightarrow> string"
    and h :: "'s LocalCacheHelper"
  assumes "this = fst (new_LegacyLocalCacheRepository h0 name (Member DoNotCache) w0)"
  shows "GetCachedValue h this k s = ((False, None), s)
    \<and> GetCachedValueJson JSON_parse h this k flag s = ((False, None), s)
    \<and> GetCachedValueNumber parseFloat h this k flag s = ((False, None), s)
    \<and> SetCachedValue h this k v s = (None, s)
    \<and> SetCachedValueJson JSON_stringify h this k x s = (None, s)
    \<and> SetCachedValueNumber toString h this k y s = (None, s)
    \<and> GetCachedValueOrCacheNewValue h this k v s = (None, s)
    \<and> GetCachedValueOrCacheNewValueJson JSON_parse JSON_stringify h this k x s = (None, s)
    \<and> backing (snd (new_LegacyLocalCacheRepository h0 name (Member DoNotCache) w0))
        = RegisterLocalCacheStore h0 name (backing w0)
    \<and> RemoveKey h this k s = DeleteLocalCachedValue h name k s
    \<and> Clear h this s = ClearLocalCacheStore h name s
    \<and> GetAllCachedValues h this s = GetAllLocalCacheValues h name s
    \<and> IsCacheClear h this s
        = (fst (GetLocalCacheSize h name s) = 0, snd (GetLocalCacheSize h name s))"
proof -
  have off: "this_DoNotCache this"
    using assms by (simp add: new_DoNotCache CalculateResetMsForStatePolicy_def)
  have name: "this_Name this = name"
    using assms by (simp add: new_Name)
  have reads: "GetCachedValue h this k s = ((False, None), s)"
      "GetCachedValueJson JSON_parse h this k flag s = ((False, None), s)"
      "GetCachedValueNumber parseFloat h this k flag s = ((False, None), s)"
    by (simp_all add: GetCachedValue_def GetCachedValueJson_def GetCachedValueNumber_def off)
  have writes: "SetCachedValue h this k v s = (None, s)"
      "SetCachedValueJson JSON_stringify h this k x s = (None, s)"
      "SetCachedValueNumber toString h this k y s = (None, s)"
    by (simp_all add: SetCachedValue_def SetCachedValueJson_def SetCachedValueNumber_def off)
  have populate: "GetCachedValueOrCacheNewValue h this k v s = (None, s)"
      "GetCachedValueOrCacheNewValueJson JSON_parse JSON_stringify h this k x s = (None, s)"
    by (simp_all add: GetCachedValueOrCacheNewValue_def GetCachedValueOrCacheNewValueJson_def
        GetCachedValue_def GetCachedValueJson_def SetCachedValue_def SetCachedValueJson_def off)
  have registers: "backing (snd (new_LegacyLocalCacheRepository h0 name (Member DoNotCache) w0))
      = RegisterLocalCacheStore h0 name (backing w0)"
    by (rule new_backing)
  have unguarded: "RemoveKey h this k s = DeleteLocalCachedValue h name k s"
      "Clear h this s = ClearLocalCacheStore h name s"
      "GetAllCachedValues h this s = GetAllLocalCacheValues h name s"
      "IsCacheClear h this s
        = (fst (GetLocalCacheSize h name s) = 0, snd (GetLocalCacheSize h name s))"
    by (simp_all add: RemoveKey_def Clear_def GetAllCachedValues_def IsCacheClear_def
        split_def Let_def name)
  from reads writes populate registers unguarded show ?thesis
    by simp
qed

text \<open>
  The theorem of C3 at a DoNotCache repository built on the store \<^verbatim>\<open>s\<close> in a fresh
  process, over the backing store of the spec. Run on a state in which \<^verbatim>\<open>s\<close> holds \<^verbatim>\<open>v\<close>
  under \<^verbatim>\<open>k\<close>, the reads miss, the writes do nothing, and the state, its record of
  calls included, is the same. The constructor has called the store's registration and
  created the partition; \<^verbatim>\<open>RemoveKey\<close> and \<^verbatim>\<open>Clear\<close> each call the store and leave the
  partition empty; \<^verbatim>\<open>GetAllCachedValues\<close> calls the store and returns the entry;
  \<^verbatim>\<open>IsCacheClear\<close> calls the store and answers \<^verbatim>\<open>false\<close>.
\<close>

theorem DoNotCache_accessors_bypass_store_witness:
  "GetCachedValue specHelper
      (fst (new_LegacyLocalCacheRepository specHelper ''s'' (Member DoNotCache) freshWorld))
      ''k'' populatedStore = ((False, None), populatedStore)
   \<and> GetCachedValueJson (\<lambda>s. if s = ''true'' then Some True else None) specHelper
      (fst (new_LegacyLocalCacheRepository specHelper ''s'' (Member DoNotCache) freshWorld))
      ''k'' True populatedStore = ((False, None), populatedStore)
   \<and> GetCachedValueNumber (\<lambda>s. if s = ''1'' then Number (1 :: int) else NaN) specHelper
      (fst (new_LegacyLocalCacheRepository specHelper ''s'' (Member DoNotCache) freshWorld))
      ''k'' True populatedStore = ((False, None), populatedStore)
   \<and> SetCachedValue specHelper
      (fst (new_LegacyLocalCacheRepository specHelper ''s'' (Member DoNotCache) freshWorld))
      ''k'' ''x'' populatedStore = (None, populatedStore)
   \<and> SetCachedValueJson (\<lambda>b. if b then ''true'' else ''false'') specHelper
      (fst (new_LegacyLocalCacheRepository specHelper ''s'' (Member DoNotCache) freshWorld))
      ''k'' True populatedStore = (None, populatedStore)
   \<and> SetCachedValueNumber (\<lambda>y. ''1'') specHelper
      (fst (new_LegacyLocalCacheRepository specHelper ''s'' (Member DoNotCache) freshWorld))
      ''k'' (Number (1 :: int)) populatedStore = (None, populatedStore)
   \<and> GetCachedValueOrCacheNewValue specHelper
      (fst (new_LegacyLocalCacheRepository specHelper ''s'' (Member DoNotCache) freshWorld))
      ''k'' ''x'' populatedStore = (None, populatedStore)
   \<and> GetCachedValueOrCacheNewValueJson (\<lambda>s. if s = ''true'' then Some True else None)
      (\<lambda>b. if b then ''true'' else ''false'') specHelper
      (fst (new_LegacyLocalCacheRepository specHelper ''s'' (Member DoNotCache) freshWorld))
      ''k'' True populatedStore = (None, populatedStore)
   \<and> backing (snd (new_LegacyLocalCacheRepository specHelper ''s'' (Member DoNotCache) freshWorld))
       = \<lparr>stores = [''s'' \<mapsto> []], calls = [RegisterCall ''s'']\<rparr>
   \<and> RemoveKey specHelper
      (fst (new_LegacyLocalCacheRepository specHelper ''s'' (Member DoNotCache) freshWorld))
      ''k'' populatedStore
       = \<lparr>stores = [''s'' \<mapsto> []], calls = [DeleteCall ''s'' ''k'']\<rparr>
   \<and> Clear specHelper
      (fst (new_LegacyLocalCacheRepository specHelper ''s'' (Member DoNotCache) freshWorld))
      populatedStore
       = \<lparr>stores = [''s'' \<mapsto> []], calls = [ClearCall ''s'']\<rparr>
   \<and> GetAllCachedValues specHelper
      (fst (new_LegacyLocalCacheRepository specHelper ''s'' (Member DoNotCache) freshWorld))
      populatedStore
       = ([(''k'', ''v'')], populatedStore\<lparr>calls := [GetAllCall ''s'']\<rparr>)
   \<and> IsCacheClear specHelper
      (fst (new_LegacyLocalCacheRepository specHelper ''s'' (Member DoNotCache) freshWorld))
      populatedStore
       = (False, populatedStore\<lparr>calls := [SizeCall ''s'']\<rparr>)"
proof -
  note all = DoNotCache_accessors_bypass_store
    [OF refl,
     where h = specHelper and ?h0.0 = specHelper and name = "''s''" and ?w0.0 = freshWorld
       and k = "''k''" and s = populatedStore and flag = True and v = "''x''"
       and x = True and y = "Number (1 :: int)"
       and JSON_parse = "\<lambda>s. if s = ''true'' then Some True else None"
       and JSON_stringify = "\<lambda>b. if b then ''true'' else ''false''"
       and parseFloat = "\<lambda>s. if s = ''1'' then Number (1 :: int) else NaN"
       and toString = "\<lambda>y. ''1''"]
  have registers: "RegisterLocalCacheStore specHelper ''s'' (backing freshWorld)
      = \<lparr>stores = [''s'' \<mapsto> []], calls = [RegisterCall ''s'']\<rparr>"
    by (simp add: freshWorld_def store_Register_def logCall_def)
  have deletes: "DeleteLocalCachedValue specHelper ''s'' ''k'' populatedStore
      = \<lparr>stores = [''s'' \<mapsto> []], calls = [DeleteCall ''s'' ''k'']\<rparr>"
    by (simp add: populatedStore_def store_Delete_def logCall_def)
  have clears: "ClearLocalCacheStore specHelper ''s'' populatedStore
      = \<lparr>stores = [''s'' \<mapsto> []], calls = [ClearCall ''s'']\<rparr>"
    by (simp add: populatedStore_def store_Clear_def logCall_def)
  have lists: "GetAllLocalCacheValues specHelper ''s'' populatedStore
      = ([(''k'', ''v'')], populatedStore\<lparr>calls := [GetAllCall ''s'']\<rparr>)"
    by (simp add: populatedStore_def store_GetAll_def logCall_def)
  have sizes: "GetLocalCacheSize specHelper ''s'' populatedStore
      = (1, populatedStore\<lparr>calls := [SizeCall ''s'']\<rparr>)"
    by (simp add: populatedStore_def store_GetSize_def logCall_def)
  from all show ?thesis
    unfolding registers deletes clears lists sizes by simp
qed

text \<open>
  C3 as stated fails: not every operation of a DoNotCache repository stays away from
  the backing store. The constructor of such a repository calls the store's
  registration, which creates the partition \<^verbatim>\<open>s\<close>. With the store \<^verbatim>\<open>s\<close> holding \<^verbatim>\<open>v\<close>
  under \<^verbatim>\<open>k\<close>, \<^verbatim>\<open>RemoveKey\<close> calls the store's delete and empties the partition,
  \<^verbatim>\<open>Clear\<close> calls the store's clear and empties it, \<^verbatim>\<open>GetAllCachedValues\<close> calls the store
  and returns its contents, and \<^verbatim>\<open>IsCacheClear\<close> asks the store for its size and answers
  \<^verbatim>\<open>false\<close>.
\<close>

theorem DoNotCache_counterexample:
  "this_DoNotCache
     (fst (new_LegacyLocalCacheRepository specHelper ''s'' (Member DoNotCache) populatedWorld))
   \<and> stores populatedStore ''s'' = Some [(''k'', ''v'')]
   \<and> stores (RemoveKey specHelper
        (fst (new_LegacyLocalCacheRepository specHelper ''s'' (Member DoNotCache) populatedWorld))
        ''k'' populatedStore) ''s'' = Some []
   \<and> calls (RemoveKey specHelper
        (fst (new_LegacyLocalCacheRepository specHelper ''s'' (Member DoNotCache) populatedWorld))
        ''k'' populatedStore) = [DeleteCall ''s'' ''k'']
   \<and> GetAllCachedValues specHelper
        (fst (new_LegacyLocalCacheRepository specHelper ''s'' (Member DoNotCache) populatedWorld))
        populatedStore
       = ([(''k'', ''v'')], populatedStore\<lparr>calls := [GetAllCall ''s'']\<rparr>)
   \<and> stores (Clear specHelper
        (fst (new_LegacyLocalCacheRepository specHelper ''s'' (Member DoNotCache) populatedWorld))
        populatedStore) ''s'' = Some []
   \<and> calls (Clear specHelper
        (fst (new_LegacyLocalCacheRepository specHelper ''s'' (Member DoNotCache) populatedWorld))
        populatedStore) = [ClearCall ''s'']
   \<and> IsCacheClear specHelper
        (fst (new_LegacyLocalCacheRepository specHelper ''s'' (Member DoNotCache) populatedWorld))
        populatedStore
       = (False, populatedStore\<lparr>calls := [SizeCall ''s'']\<rparr>)
   \<and> stores (backing freshWorld) ''s'' = None
   \<and> stores (backing (snd (new_LegacyLocalCacheRepository specHelper ''s'' (Member DoNotCache)
        freshWorld))) ''s'' = Some []
   \<and> calls (backing (snd (new_LegacyLocalCacheRepository specHelper ''s'' (Member DoNotCache)
        freshWorld))) = [RegisterCall ''s'']"
  by (simp add: populatedStore_def freshWorld_def new_DoNotCache new_Name new_backing
      CalculateResetMsForStatePolicy_def RemoveKey_def GetAllCachedValues_def Clear_def
      IsCacheClear_def store_defs Let_def)

section \<open>Reads and writes of a repository that caches\<close>

text \<open>
  C4. Round trip: for every key \<open>k\<close> and value \<open>v\<close>, on a repository that is not
  disabled, over the backing store of the spec with the repository's store registered
  (as the constructor leaves it), \<^verbatim>\<open>SetCachedValue(k, v)\<close> followed immediately by
  \<^verbatim>\<open>GetCachedValue(k)\<close> returns \<^verbatim>\<open>[true, v]\<close>.
\<close>

theorem SetCachedValue_GetCachedValue_round_trip:
  assumes enabled: "\<not> this_DoNotCache this"
    and reg: "registered (this_Name this) s"
  shows "fst (GetCachedValue specHelper this k (snd (SetCachedValue specHelper this k v s)))
           = (True, Some v)"
proof -
  let ?s1 = "snd (store_Set (this_Name this) k v s)"
  have written: "snd (SetCachedValue specHelper this k v s) = ?s1"
    by (simp add: SetCachedValue_enabled [OF enabled])
  have "stored ?s1 (this_Name this) k = Some v"
    by (simp add: store_Set_stored [OF reg])
  then have "fst (GetLocalCacheValue specHelper (this_Name this) k ?s1) = (True, v)"
    by (simp add: store_Get_stored)
  then show ?thesis
    by (simp add: written GetCachedValue_hit [OF enabled])
qed

text \<open>
  The round trip on a NoReset repository built on the store \<^verbatim>\<open>s\<close> in a fresh process.
\<close>

theorem SetCachedValue_GetCachedValue_round_trip_witness:
  "\<not> this_DoNotCache
       (fst (new_LegacyLocalCacheRepository specHelper ''s'' (Member NoReset) freshWorld))
   \<and> registered
        (this_Name (fst (new_LegacyLocalCacheRepository specHelper ''s'' (Member NoReset) freshWorld)))
        (backing (snd (new_LegacyLocalCacheRepository specHelper ''s'' (Member NoReset) freshWorld)))
   \<and> fst (GetCachedValue specHelper
        (fst (new_LegacyLocalCacheRepository specHelper ''s'' (Member NoReset) freshWorld)) ''k''
        (snd (SetCachedValue specHelper
           (fst (new_LegacyLocalCacheRepository specHelper ''s'' (Member NoReset) freshWorld))
           ''k'' ''v''
           (backing (snd (new_LegacyLocalCacheRepository specHelper ''s'' (Member NoReset) freshWorld))))))
       = (True, Some ''v'')"
proof -
  let ?R = "fst (new_LegacyLocalCacheRepository specHelper ''s'' (Member NoReset) freshWorld)"
  let ?S = "backing (snd (new_LegacyLocalCacheRepository specHelper ''s'' (Member NoReset) freshWorld))"
  have enabled: "\<not> this_DoNotCache ?R"
    by (simp add: new_DoNotCache CalculateResetMsForStatePolicy_def)
  have reg: "registered (this_Name ?R) ?S"
    by (simp add: new_Name new_registered)
  from enabled reg SetCachedValue_GetCachedValue_round_trip [OF enabled reg, of "''k''" "''v''"]
  show ?thesis
    by simp
qed

text \<open>
  C5. Parse-failure fallback: on a repository that is not disabled, for every key \<open>k\<close>
  for which the backing store answers with a raw string \<open>raw\<close> that is not valid JSON
  (\<^verbatim>\<open>JSON.parse\<close> throws on it), \<^verbatim>\<open>GetCachedValueJson(k, true)\<close> returns \<^verbatim>\<open>[true, raw]\<close>,
  the unparsed string standing in for a \<^verbatim>\<open>T\<close>, and \<^verbatim>\<open>GetCachedValueJson(k, false)\<close>
  returns \<^verbatim>\<open>[false, null]\<close> as for a missing key. The same holds of
  \<^verbatim>\<open>GetCachedValueNumber\<close> when \<^verbatim>\<open>parseFloat\<close> of the stored string is not-a-number.
\<close>

theorem parse_failure_fallback:
  fixes JSON_parse :: "string \<Rightarrow> 'a option" and parseFloat :: "string \<Rightarrow> 'n js_number"
    and h :: "'s LocalCacheHelper"
  assumes enabled: "\<not> this_DoNotCache this"
    and raw: "fst (GetLocalCacheValue h (this_Name this) k s) = (True, raw)"
  shows "(JSON_parse raw = None \<longrightarrow>
            GetCachedValueJson JSON_parse h this k True s
              = ((True, Some (Raw raw)), snd (GetLocalCacheValue h (this_Name this) k s))
          \<and> GetCachedValueJson JSON_parse h this k False s
              = ((False, None), snd (GetLocalCacheValue h (this_Name this) k s)))
       \<and> (isNaN (parseFloat raw) \<longrightarrow>
            GetCachedValueNumber parseFloat h this k True s
              = ((True, Some (Raw raw)), snd (GetLocalCacheValue h (this_Name this) k s))
          \<and> GetCachedValueNumber parseFloat h this k False s
              = ((False, None), snd (GetLocalCacheValue h (this_Name this) k s)))"
proof (intro conjI impI)
  assume "JSON_parse raw = None"
  then show "GetCachedValueJson JSON_parse h this k True s
      = ((True, Some (Raw raw)), snd (GetLocalCacheValue h (this_Name this) k s))"
    and "GetCachedValueJson JSON_parse h this k False s
      = ((False, None), snd (GetLocalCacheValue h (this_Name this) k s))"
    using enabled raw by (simp_all add: GetCachedValueJson_def split_def)
next
  assume "isNaN (parseFloat raw)"
  then show "GetCachedValueNumber parseFloat h this k True s
      = ((True, Some (Raw raw)), snd (GetLocalCacheValue h (this_Name this) k s))"
    and "GetCachedValueNumber parseFloat h this k False s
      = ((False, None), snd (GetLocalCacheValue h (this_Name this) k s))"
    using enabled raw by (simp_all add: GetCachedValueNumber_def split_def)
qed

text \<open>
  The fallback on a NoReset repository over the backing store of the spec, whose store
  \<^verbatim>\<open>s\<close> holds the string \<^verbatim>\<open>v\<close> under \<^verbatim>\<open>k\<close>, with a \<^verbatim>\<open>JSON.parse\<close> that accepts only
  \<^verbatim>\<open>true\<close> and a \<^verbatim>\<open>parseFloat\<close> that reads only \<^verbatim>\<open>1\<close>; on \<^verbatim>\<open>v\<close> the first throws and the
  second gives not-a-number.
\<close>

theorem parse_failure_fallback_witness:
  "\<not> this_DoNotCache
       (fst (new_LegacyLocalCacheRepository specHelper ''s'' (Member NoReset) populatedWorld))
   \<and> fst (GetLocalCacheValue specHelper ''s'' ''k'' populatedStore) = (True, ''v'')
   \<and> fst (GetCachedValueJson (\<lambda>s. if s = ''true'' then Some True else None) specHelper
        (fst (new_LegacyLocalCacheRepository specHelper ''s'' (Member NoReset) populatedWorld))
        ''k'' True populatedStore) = (True, Some (Raw ''v''))
   \<and> fst (GetCachedValueJson (\<lambda>s. if s = ''true'' then Some True else None) specHelper
        (fst (new_LegacyLocalCacheRepository specHelper ''s'' (Member NoReset) populatedWorld))
        ''k'' False populatedStore) = (False, None)
   \<and> fst (GetCachedValueNumber (\<lambda>s. if s = ''1'' then Number (1 :: int) else NaN) specHelper
        (fst (new_LegacyLocalCacheRepository specHelper ''s'' (Member NoReset) populatedWorld))
        ''k'' True populatedStore) = (True, Some (Raw ''v''))
   \<and> fst (GetCachedValueNumber (\<lambda>s. if s = ''1'' then Number (1 :: int) else NaN) specHelper
        (fst (new_LegacyLocalCacheRepository specHelper ''s'' (Member NoReset) populatedWorld))
        ''k'' False populatedStore) = (False, None)"
proof -
  let ?R = "fst (new_LegacyLocalCacheRepository specHelper ''s'' (Member NoReset) populatedWorld)"
  have enabled: "\<not> this_DoNotCache ?R"
    by (simp add: new_DoNotCache CalculateResetMsForStatePolicy_def)
  have held: "fst (GetLocalCacheValue specHelper ''s'' ''k'' populatedStore) = (True, ''v'')"
    by (simp add: store_Get_def populatedStore_def)
  then have raw: "fst (GetLocalCacheValue specHelper (this_Name ?R) ''k'' populatedStore) = (True, ''v'')"
    by (simp add: new_Name)
  from enabled held
    parse_failure_fallback [OF enabled raw,
      of "\<lambda>s. if s = ''true'' then Some True else None"
         "\<lambda>s. if s = ''1'' then Number (1 :: int) else NaN"]
  show ?thesis
    by (simp add: isNaN_def)
qed

text \<open>
  C6, as amended. Get-or-populate: \<^verbatim>\<open>GetCachedValueOrCacheNewValue(k, v)\<close> reads first.
  If the read hits, it returns the cached value and the state the read left, so \<open>v\<close> is
  discarded and nothing is written. If the read misses, it returns what
  \<^verbatim>\<open>SetCachedValue(k, v)\<close> returns. On a repository that is not disabled, whatever the
  backing store: when the store answers the read with \<open>c\<close>, the result is \<open>c\<close> and the
  store is called once, to read; when it answers with a miss, the store is told to set
  \<open>k\<close> to \<open>v\<close> and its answer is the result. On the backing store of the spec, with the
  store registered and the repository not disabled: after the call the key holds what
  the call returned, and a second call with the same key and another value \<open>v'\<close>
  returns the same, leaving the store's contents as they were. On a disabled repository
  the call returns \<^verbatim>\<open>null\<close> and hands the state back as it was: the store is neither
  read nor written.
\<close>

theorem GetCachedValueOrCacheNewValue_reads_first:
  fixes h :: "'s LocalCacheHelper"
  shows
  "(fst (fst (GetCachedValue h this k s)) \<longrightarrow>
      GetCachedValueOrCacheNewValue h this k v s
        = (snd (fst (GetCachedValue h this k s)), snd (GetCachedValue h this k s)))
   \<and> (\<not> fst (fst (GetCachedValue h this k s)) \<longrightarrow>
      GetCachedValueOrCacheNewValue h this k v s
        = SetCachedValue h this k v (snd (GetCachedValue h this k s)))
   \<and> (\<not> this_DoNotCache this \<longrightarrow>
        (\<forall>c. fst (GetLocalCacheValue h (this_Name this) k s) = (True, c) \<longrightarrow>
           GetCachedValueOrCacheNewValue h this k v s
             = (Some c, snd (GetLocalCacheValue h (this_Name this) k s)))
      \<and> (\<not> fst (fst (GetLocalCacheValue h (this_Name this) k s)) \<longrightarrow>
           GetCachedValueOrCacheNewValue h this k v s
             = (Some (fst (SetLocalCachedValue h (this_Name this) k v
                        (snd (GetLocalCacheValue h (this_Name this) k s)))),
                snd (SetLocalCachedValue h (this_Name this) k v
                        (snd (GetLocalCacheValue h (this_Name this) k s))))))
   \<and> (\<not> this_DoNotCache this \<and> registered (this_Name this) t \<longrightarrow>
        stored (snd (GetCachedValueOrCacheNewValue specHelper this k v t)) (this_Name this) k
          = fst (GetCachedValueOrCacheNewValue specHelper this k v t)
      \<and> fst (GetCachedValueOrCacheNewValue specHelper this k v'
               (snd (GetCachedValueOrCacheNewValue specHelper this k v t)))
          = fst (GetCachedValueOrCacheNewValue specHelper this k v t)
      \<and> stores (snd (GetCachedValueOrCacheNewValue specHelper this k v'
               (snd (GetCachedValueOrCacheNewValue specHelper this k v t))))
          = stores (snd (GetCachedValueOrCacheNewValue specHelper this k v t)))
   \<and> (this_DoNotCache this \<longrightarrow> GetCachedValueOrCacheNewValue h this k v s = (None, s))"
proof (intro conjI impI allI)
  assume "this_DoNotCache this"
  then show "GetCachedValueOrCacheNewValue h this k v s = (None, s)"
    by (simp add: GetCachedValueOrCacheNewValue_def GetCachedValue_def SetCachedValue_def)
next
  assume "fst (fst (GetCachedValue h this k s))"
  then show "GetCachedValueOrCacheNewValue h this k v s
      = (snd (fst (GetCachedValue h this k s)), snd (GetCachedValue h this k s))"
    by (simp add: GetCachedValueOrCacheNewValue_def split_def Let_def)
next
  assume "\<not> fst (fst (GetCachedValue h this k s))"
  then show "GetCachedValueOrCacheNewValue h this k v s
      = SetCachedValue h this k v (snd (GetCachedValue h this k s))"
    by (simp add: GetCachedValueOrCacheNewValue_def split_def Let_def)
next
  fix c
  assume "\<not> this_DoNotCache this"
    and "fst (GetLocalCacheValue h (this_Name this) k s) = (True, c)"
  then show "GetCachedValueOrCacheNewValue h this k v s
      = (Some c, snd (GetLocalCacheValue h (this_Name this) k s))"
    by (rule GetCachedValueOrCacheNewValue_hit)
next
  assume "\<not> this_DoNotCache this"
    and "\<not> fst (fst (GetLocalCacheValue h (this_Name this) k s))"
  then show "GetCachedValueOrCacheNewValue h this k v s
      = (Some (fst (SetLocalCachedValue h (this_Name this) k v
                 (snd (GetLocalCacheValue h (this_Name this) k s)))),
         snd (SetLocalCachedValue h (this_Name this) k v
                 (snd (GetLocalCacheValue h (this_Name this) k s))))"
    by (rule GetCachedValueOrCacheNewValue_miss)
next
  let ?first = "GetCachedValueOrCacheNewValue specHelper this k v t"
  assume a: "\<not> this_DoNotCache this \<and> registered (this_Name this) t"
  then have enabled: "\<not> this_DoNotCache this" and reg: "registered (this_Name this) t"
    by simp_all
  have "\<exists>c. fst ?first = Some c \<and> stored (snd ?first) (this_Name this) k = Some c"
  proof (cases "stored t (this_Name this) k")
    case None
    then have "\<not> fst (fst (GetLocalCacheValue specHelper (this_Name this) k t))"
      by (simp add: store_Get_stored)
    from GetCachedValueOrCacheNewValue_miss [OF enabled this, of v] reg
    show ?thesis
      by (simp add: store_Set_echo store_Set_stored store_Get_stored)
  next
    case (Some c)
    then have "fst (GetLocalCacheValue specHelper (this_Name this) k t) = (True, c)"
      by (simp add: store_Get_stored)
    from GetCachedValueOrCacheNewValue_hit [OF enabled this, of v] Some
    show ?thesis
      by (simp add: store_Get_stored)
  qed
  then obtain c where c: "fst ?first = Some c"
    and held: "stored (snd ?first) (this_Name this) k = Some c"
    by blast
  from c held show "stored (snd ?first) (this_Name this) k = fst ?first"
    by simp
  from held have "fst (GetLocalCacheValue specHelper (this_Name this) k (snd ?first)) = (True, c)"
    by (simp add: store_Get_stored)
  note again = GetCachedValueOrCacheNewValue_hit [OF enabled this, of v']
  show "fst (GetCachedValueOrCacheNewValue specHelper this k v' (snd ?first)) = fst ?first"
    by (simp add: again c)
  show "stores (snd (GetCachedValueOrCacheNewValue specHelper this k v' (snd ?first)))
      = stores (snd ?first)"
    by (simp add: again store_Get_stored)
qed

text \<open>
  Get-or-populate on a NoReset repository built on the store \<^verbatim>\<open>s\<close> in a fresh process,
  over the backing store of the spec: the first call, on the fresh key \<^verbatim>\<open>k\<close>, returns
  the supplied \<^verbatim>\<open>v\<close>; the second call, with the value \<^verbatim>\<open>other\<close>, returns \<^verbatim>\<open>v\<close> again.
\<close>

theorem GetCachedValueOrCacheNewValue_reads_first_witness:
  "\<not> this_DoNotCache
       (fst (new_LegacyLocalCacheRepository specHelper ''s'' (Member NoReset) freshWorld))
   \<and> registered ''s''
        (backing (snd (new_LegacyLocalCacheRepository specHelper ''s'' (Member NoReset) freshWorld)))
   \<and> \<not> fst (fst (GetLocalCacheValue specHelper ''s'' ''k''
        (backing (snd (new_LegacyLocalCacheRepository specHelper ''s'' (Member NoReset) freshWorld)))))
   \<and> fst (GetCachedValueOrCacheNewValue specHelper
        (fst (new_LegacyLocalCacheRepository specHelper ''s'' (Member NoReset) freshWorld))
        ''k'' ''v''
        (backing (snd (new_LegacyLocalCacheRepository specHelper ''s'' (Member NoReset) freshWorld))))
       = Some ''v''
   \<and> fst (GetCachedValueOrCacheNewValue specHelper
        (fst (new_LegacyLocalCacheRepository specHelper ''s'' (Member NoReset) freshWorld))
        ''k'' ''other''
        (snd (GetCachedValueOrCacheNewValue specHelper
          (fst (new_LegacyLocalCacheRepository specHelper ''s'' (Member NoReset) freshWorld))
          ''k'' ''v''
          (backing (snd (new_LegacyLocalCacheRepository specHelper ''s'' (Member NoReset) freshWorld))))))
       = Some ''v''"
proof -
  let ?R = "fst (new_LegacyLocalCacheRepository specHelper ''s'' (Member NoReset) freshWorld)"
  let ?S = "backing (snd (new_LegacyLocalCacheRepository specHelper ''s'' (Member NoReset) freshWorld))"
  have enabled: "\<not> this_DoNotCache ?R"
    by (simp add: new_DoNotCache CalculateResetMsForStatePolicy_def)
  have name: "this_Name ?R = ''s''"
    by (rule new_Name)
  have reg: "registered ''s'' ?S"
    by (rule new_registered)
  have fresh: "\<not> fst (fst (GetLocalCacheValue specHelper ''s'' ''k'' ?S))"
    by (simp add: new_backing freshWorld_def store_defs Let_def)
  then have fresh': "\<not> fst (fst (GetLocalCacheValue specHelper (this_Name ?R) ''k'' ?S))"
    by (simp add: name)
  from reg have reg': "registered (this_Name ?R) ?S"
    by (simp add: name)
  note all = GetCachedValueOrCacheNewValue_reads_first
    [of specHelper ?R "''k''" ?S "''v''" ?S "''other''"]
  note miss = all [THEN conjunct2, THEN conjunct2, THEN conjunct1, rule_format, OF enabled,
    THEN conjunct2, rule_format, OF fresh']
  note twice = all [THEN conjunct2, THEN conjunct2, THEN conjunct2, THEN conjunct1,
    rule_format, OF conjI [OF enabled reg']]
  from miss have first: "fst (GetCachedValueOrCacheNewValue specHelper ?R ''k'' ''v'' ?S) = Some ''v''"
    by (simp add: store_Set_echo)
  from twice first
  have "fst (GetCachedValueOrCacheNewValue specHelper ?R ''k'' ''other''
      (snd (GetCachedValueOrCacheNewValue specHelper ?R ''k'' ''v'' ?S))) = Some ''v''"
    by simp
  with enabled reg fresh first show ?thesis
    by simp
qed

text \<open>
  C6 as stated fails on a disabled repository. A DoNotCache repository is built on the
  store \<^verbatim>\<open>s\<close> in a fresh process, over the backing store of the spec. The key \<^verbatim>\<open>k\<close>
  is fresh, so the read misses; get-or-populate with \<^verbatim>\<open>v\<close> then returns \<^verbatim>\<open>null\<close>, not
  \<^verbatim>\<open>v\<close>, and writes nothing: the key holds nothing afterwards and no call reached the
  store. And where the store does hold \<^verbatim>\<open>v\<close> under \<^verbatim>\<open>k\<close>, the call returns \<^verbatim>\<open>null\<close>
  and not the stored value.
\<close>

theorem GetCachedValueOrCacheNewValue_disabled_counterexample:
  "this_DoNotCache
     (fst (new_LegacyLocalCacheRepository specHelper ''s'' (Member DoNotCache) freshWorld))
   \<and> stored (backing (snd (new_LegacyLocalCacheRepository specHelper ''s'' (Member DoNotCache)
        freshWorld))) ''s'' ''k'' = None
   \<and> fst (GetCachedValueOrCacheNewValue specHelper
        (fst (new_LegacyLocalCacheRepository specHelper ''s'' (Member DoNotCache) freshWorld))
        ''k'' ''v''
        (backing (snd (new_LegacyLocalCacheRepository specHelper ''s'' (Member DoNotCache)
           freshWorld)))) = None
   \<and> stored (snd (GetCachedValueOrCacheNewValue specHelper
        (fst (new_LegacyLocalCacheRepository specHelper ''s'' (Member DoNotCache) freshWorld))
        ''k'' ''v''
        (backing (snd (new_LegacyLocalCacheRepository specHelper ''s'' (Member DoNotCache)
           freshWorld))))) ''s'' ''k'' = None
   \<and> calls (snd (GetCachedValueOrCacheNewValue specHelper
        (fst (new_LegacyLocalCacheRepository specHelper ''s'' (Member DoNotCache) freshWorld))
        ''k'' ''v''
        (backing (snd (new_LegacyLocalCacheRepository specHelper ''s'' (Member DoNotCache)
           freshWorld))))) = [RegisterCall ''s'']
   \<and> stored populatedStore ''s'' ''k'' = Some ''v''
   \<and> GetCachedValueOrCacheNewValue specHelper
        (fst (new_LegacyLocalCacheRepository specHelper ''s'' (Member DoNotCache) freshWorld))
        ''k'' ''other'' populatedStore = (None, populatedStore)"
  by (simp add: new_DoNotCache new_backing CalculateResetMsForStatePolicy_def
      GetCachedValueOrCacheNewValue_def GetCachedValue_def SetCachedValue_def
      stored_def freshWorld_def populatedStore_def store_Register_def logCall_def)

text \<open>
  C10. On a repository that caches, for a key \<open>k\<close> whose stored string is not valid
  JSON, \<^verbatim>\<open>GetCachedValueOrCacheNewValueJson(k, v)\<close> treats the entry as a miss (its read
  runs with the parse-failure flag at its default \<^verbatim>\<open>false\<close>), tells the backing store
  to set \<open>k\<close> to the JSON serialization of \<open>v\<close>, and returns \<open>v\<close>, whatever the backing
  store. On the backing store of the spec the key then holds the serialization: the
  unparseable string that was there is gone, after one read and one write.
\<close>

theorem GetCachedValueOrCacheNewValueJson_overwrites_unparseable:
  fixes JSON_parse :: "string \<Rightarrow> 'a option" and JSON_stringify :: "'a \<Rightarrow> string"
    and h :: "'s LocalCacheHelper"
  assumes enabled: "\<not> this_DoNotCache this"
    and bad: "JSON_parse raw = None"
  shows "(fst (GetLocalCacheValue h (this_Name this) k s) = (True, raw) \<longrightarrow>
            fst (GetCachedValueJson JSON_parse h this k False s) = (False, None)
          \<and> GetCachedValueOrCacheNewValueJson JSON_parse JSON_stringify h this k v s
              = (Some (Typed v),
                 snd (SetLocalCachedValue h (this_Name this) k (JSON_stringify v)
                        (snd (GetLocalCacheValue h (this_Name this) k s)))))
       \<and> (stored t (this_Name this) k = Some raw \<longrightarrow>
            fst (GetCachedValueOrCacheNewValueJson JSON_parse JSON_stringify specHelper this k v t)
              = Some (Typed v)
          \<and> stored (snd (GetCachedValueOrCacheNewValueJson JSON_parse JSON_stringify
                             specHelper this k v t)) (this_Name this) k
              = Some (JSON_stringify v)
          \<and> calls (snd (GetCachedValueOrCacheNewValueJson JSON_parse JSON_stringify
                             specHelper this k v t))
              = calls t @ [GetCall (this_Name this) k,
                           SetCall (this_Name this) k (JSON_stringify v)])"
proof -
  have general: "fst (GetCachedValueJson JSON_parse g this k False u) = (False, None)
      \<and> GetCachedValueOrCacheNewValueJson JSON_parse JSON_stringify g this k v u
          = (Some (Typed v),
             snd (SetLocalCachedValue g (this_Name this) k (JSON_stringify v)
                    (snd (GetLocalCacheValue g (this_Name this) k u))))"
    if answer: "fst (GetLocalCacheValue g (this_Name this) k u) = (True, raw)"
    for g :: "'u LocalCacheHelper" and u
  proof -
    have read: "GetCachedValueJson JSON_parse g this k False u
        = ((False, None), snd (GetLocalCacheValue g (this_Name this) k u))"
      using enabled answer bad by (simp add: GetCachedValueJson_def split_def)
    have "SetCachedValueJson JSON_stringify g this k v (snd (GetLocalCacheValue g (this_Name this) k u))
        = (Some v, snd (SetLocalCachedValue g (this_Name this) k (JSON_stringify v)
                          (snd (GetLocalCacheValue g (this_Name this) k u))))"
      using enabled by (simp add: SetCachedValueJson_def split_def)
    with read show ?thesis
      by (simp add: GetCachedValueOrCacheNewValueJson_def)
  qed
  show ?thesis
  proof (intro conjI impI)
    assume "fst (GetLocalCacheValue h (this_Name this) k s) = (True, raw)"
    from general [OF this]
    show "fst (GetCachedValueJson JSON_parse h this k False s) = (False, None)"
      and "GetCachedValueOrCacheNewValueJson JSON_parse JSON_stringify h this k v s
        = (Some (Typed v),
           snd (SetLocalCachedValue h (this_Name this) k (JSON_stringify v)
                  (snd (GetLocalCacheValue h (this_Name this) k s))))"
      by simp_all
  next
    assume held: "stored t (this_Name this) k = Some raw"
    then have answer: "fst (GetLocalCacheValue specHelper (this_Name this) k t) = (True, raw)"
      by (simp add: store_Get_stored)
    from held have reg: "registered (this_Name this) t"
      by (simp add: registered_def stored_def split: option.splits)
    note whole = general [OF answer, THEN conjunct2]
    show "fst (GetCachedValueOrCacheNewValueJson JSON_parse JSON_stringify specHelper this k v t)
        = Some (Typed v)"
      by (simp add: whole)
    show "stored (snd (GetCachedValueOrCacheNewValueJson JSON_parse JSON_stringify
                         specHelper this k v t)) (this_Name this) k
        = Some (JSON_stringify v)"
      using reg by (simp add: whole store_Get_stored store_Set_stored)
    show "calls (snd (GetCachedValueOrCacheNewValueJson JSON_parse JSON_stringify
                        specHelper this k v t))
        = calls t @ [GetCall (this_Name this) k, SetCall (this_Name this) k (JSON_stringify v)]"
      by (simp add: whole store_Get_stored store_Set_calls)
  qed
qed

text \<open>
  A NoReset repository on the store \<^verbatim>\<open>s\<close> of the spec's backing store, which holds the
  string \<^verbatim>\<open>v\<close> under \<^verbatim>\<open>k\<close>; \<^verbatim>\<open>JSON.parse\<close> accepts only \<^verbatim>\<open>true\<close>, so \<^verbatim>\<open>v\<close> does not parse.
  Get-or-populate with the value \<open>True\<close> returns \<open>True\<close> and leaves \<^verbatim>\<open>true\<close> under \<^verbatim>\<open>k\<close>.
\<close>

theorem GetCachedValueOrCacheNewValueJson_overwrites_unparseable_witness:
  "\<not> this_DoNotCache
       (fst (new_LegacyLocalCacheRepository specHelper ''s'' (Member NoReset) populatedWorld))
   \<and> stored populatedStore ''s'' ''k'' = Some ''v''
   \<and> fst (GetCachedValueOrCacheNewValueJson (\<lambda>s. if s = ''true'' then Some True else None)
        (\<lambda>b. if b then ''true'' else ''false'') specHelper
        (fst (new_LegacyLocalCacheRepository specHelper ''s'' (Member NoReset) populatedWorld))
        ''k'' True populatedStore) = Some (Typed True)
   \<and> stored (snd (GetCachedValueOrCacheNewValueJson (\<lambda>s. if s = ''true'' then Some True else None)
        (\<lambda>b. if b then ''true'' else ''false'') specHelper
        (fst (new_LegacyLocalCacheRepository specHelper ''s'' (Member NoReset) populatedWorld))
        ''k'' True populatedStore)) ''s'' ''k'' = Some ''true''"
proof -
  let ?R = "fst (new_LegacyLocalCacheRepository specHelper ''s'' (Member NoReset) populatedWorld)"
  let ?parse = "\<lambda>s. if s = ''true'' then Some True else None"
  have enabled: "\<not> this_DoNotCache ?R"
    by (simp add: new_DoNotCache CalculateResetMsForStatePolicy_def)
  have name: "this_Name ?R = ''s''"
    by (rule new_Name)
  have held: "stored populatedStore ''s'' ''k'' = Some ''v''"
    by (simp add: stored_def populatedStore_def)
  have bad: "?parse ''v'' = None"
    by simp
  from enabled held name
    GetCachedValueOrCacheNewValueJson_overwrites_unparseable
      [of ?R ?parse "''v''" specHelper "''k''" populatedStore
          "\<lambda>b. if b then ''true'' else ''false''" True populatedStore,
       OF enabled bad]
  show ?thesis
    by simp
qed

section \<open>The reset scheduler\<close>

text \<open>
  C8. On each reset tick of an active timer, bound to the store \<open>name\<close>, whatever the
  backing store: if the store's size is greater than zero, the tick is the size query
  followed by the store's clear operation on \<open>name\<close>; if the size is zero, the tick is
  the size query alone, and the clear operation is not invoked at all: the tick comes
  out the same whatever the clear operation would do. The timers are as they were. On
  the backing store of the spec: a non-empty partition is empty after the tick, which
  made two calls, size and clear; on an empty one the tick made one call, size, and the
  contents are as they were.
\<close>

theorem reset_tick_clears_only_nonempty:
  fixes h :: "'s LocalCacheHelper"
  shows
  "(i < length (timers w) \<and> callbackName (timers w ! i) = name \<longrightarrow>
      (0 < fst (GetLocalCacheSize h name (backing w)) \<longrightarrow>
         backing (fire h i w)
           = ClearLocalCacheStore h name (snd (GetLocalCacheSize h name (backing w))))
    \<and> (fst (GetLocalCacheSize h name (backing w)) = 0 \<longrightarrow>
         backing (fire h i w) = snd (GetLocalCacheSize h name (backing w))
       \<and> (\<forall>c. fire (h\<lparr>ClearLocalCacheStore := c\<rparr>) i w = fire h i w))
    \<and> timers (fire h i w) = timers w)
   \<and> (j < length (timers u) \<and> callbackName (timers u ! j) = name \<longrightarrow>
      (0 < fst (GetLocalCacheSize specHelper name (backing u)) \<longrightarrow>
         stores (backing (fire specHelper j u)) = (stores (backing u))(name \<mapsto> [])
       \<and> fst (GetLocalCacheSize specHelper name (backing (fire specHelper j u))) = 0
       \<and> calls (backing (fire specHelper j u))
           = calls (backing u) @ [SizeCall name, ClearCall name])
    \<and> (fst (GetLocalCacheSize specHelper name (backing u)) = 0 \<longrightarrow>
         stores (backing (fire specHelper j u)) = stores (backing u)
       \<and> calls (backing (fire specHelper j u)) = calls (backing u) @ [SizeCall name]))"
proof (intro conjI impI allI)
  assume a: "i < length (timers w) \<and> callbackName (timers w ! i) = name"
  then have tick: "backing (fire g i w) = resetTick g name (backing w)"
    for g :: "'s LocalCacheHelper"
    by (simp add: fire_def)
  show "timers (fire h i w) = timers w"
    by (simp add: fire_def)
  {
    assume "0 < fst (GetLocalCacheSize h name (backing w))"
    then show "backing (fire h i w)
        = ClearLocalCacheStore h name (snd (GetLocalCacheSize h name (backing w)))"
      by (simp add: tick resetTick_def split_def)
  }
  {
    assume empty: "fst (GetLocalCacheSize h name (backing w)) = 0"
    then show "backing (fire h i w) = snd (GetLocalCacheSize h name (backing w))"
      by (simp add: tick resetTick_def split_def)
    fix c
    from a empty show "fire (h\<lparr>ClearLocalCacheStore := c\<rparr>) i w = fire h i w"
      by (simp add: fire_def resetTick_def split_def)
  }
next
  assume b: "j < length (timers u) \<and> callbackName (timers u ! j) = name"
  then have tick: "backing (fire specHelper j u) = resetTick specHelper name (backing u)"
    by (simp add: fire_def)
  {
    assume nonempty: "0 < fst (GetLocalCacheSize specHelper name (backing u))"
    then have reg: "registered name (backing u)"
      by (simp add: store_GetSize_positive)
    from nonempty have after: "backing (fire specHelper j u)
        = store_Clear name (logCall (SizeCall name) (backing u))"
      by (simp add: tick resetTick_def split_def store_GetSize_calls)
    from reg show "stores (backing (fire specHelper j u)) = (stores (backing u))(name \<mapsto> [])"
      and "calls (backing (fire specHelper j u))
        = calls (backing u) @ [SizeCall name, ClearCall name]"
      by (simp_all add: after store_Clear_fields)
    then show "fst (GetLocalCacheSize specHelper name (backing (fire specHelper j u))) = 0"
      by (simp add: store_GetSize_def)
  }
  {
    assume "fst (GetLocalCacheSize specHelper name (backing u)) = 0"
    then have after: "backing (fire specHelper j u) = logCall (SizeCall name) (backing u)"
      by (simp add: tick resetTick_def split_def store_GetSize_calls)
    show "stores (backing (fire specHelper j u)) = stores (backing u)"
      and "calls (backing (fire specHelper j u)) = calls (backing u) @ [SizeCall name]"
      by (simp_all add: after)
  }
qed

text \<open>
  Two ticks of a five-second timer bound to the store \<^verbatim>\<open>s\<close> of the spec's backing
  store, which holds one entry: the first tick asks for the size and clears, the second
  only asks for the size.
\<close>

theorem reset_tick_clears_only_nonempty_witness:
  "stores (backing (fire specHelper 0 (populatedWorld\<lparr>timers :=
       [\<lparr>callbackName = ''s'', intervalMs = 5000, hasRef = True\<rparr>]\<rparr>))) ''s'' = Some []
   \<and> calls (backing (fire specHelper 0 (populatedWorld\<lparr>timers :=
       [\<lparr>callbackName = ''s'', intervalMs = 5000, hasRef = True\<rparr>]\<rparr>)))
       = [SizeCall ''s'', ClearCall ''s'']
   \<and> calls (backing (fire specHelper 0 (fire specHelper 0 (populatedWorld\<lparr>timers :=
       [\<lparr>callbackName = ''s'', intervalMs = 5000, hasRef = True\<rparr>]\<rparr>))))
       = [SizeCall ''s'', ClearCall ''s'', SizeCall ''s'']"
proof -
  let ?w = "populatedWorld\<lparr>timers := [\<lparr>callbackName = ''s'', intervalMs = 5000, hasRef = True\<rparr>]\<rparr>"
  have active: "0 < length (timers ?w) \<and> callbackName (timers ?w ! 0) = ''s''"
    by simp
  have nonempty: "0 < fst (GetLocalCacheSize specHelper ''s'' (backing ?w))"
    by (simp add: store_GetSize_def populatedWorld_def populatedStore_def)
  note first = reset_tick_clears_only_nonempty
    [of 0 ?w "''s''" specHelper 0 ?w, THEN conjunct2, rule_format, OF active]
  note cleared = first [THEN conjunct1, rule_format, OF nonempty]
  note same = reset_tick_clears_only_nonempty
    [of 0 ?w "''s''" specHelper 0 ?w, THEN conjunct1, rule_format, OF active,
     THEN conjunct2, THEN conjunct2]
  have active': "0 < length (timers (fire specHelper 0 ?w))
      \<and> callbackName (timers (fire specHelper 0 ?w) ! 0) = ''s''"
    by (simp add: same)
  from cleared have empty: "fst (GetLocalCacheSize specHelper ''s'' (backing (fire specHelper 0 ?w))) = 0"
    by simp
  note second = reset_tick_clears_only_nonempty
    [of 0 ?w "''s''" specHelper 0 "fire specHelper 0 ?w", THEN conjunct2, rule_format,
     OF active', THEN conjunct2, rule_format, OF empty]
  from cleared second show ?thesis
    by (simp add: populatedWorld_def populatedStore_def)
qed

text \<open>
  C9. The reset timer is registered at most once per instance. Every call of the
  registration routine leaves the latch set; a call on an instance whose latch is set
  changes neither the instance nor the timers; so however many times the routine is
  invoked on an instance, only the first invocation counts, and the number of timers
  grows by one when that first invocation finds the latch open and the resolved interval
  is neither \<^verbatim>\<open>null\<close> nor \<open>-1\<close> (it is then a positive number), and by none otherwise:
  at most one timer per instance.
\<close>

theorem reset_registered_at_most_once:
  "this_WasRegisteredForCacheReset (fst (RegisterResetRoundRobin p this ts))
   \<and> (this_WasRegisteredForCacheReset this \<longrightarrow> RegisterResetRoundRobin p this ts = (this, ts))
   \<and> RegisterResetRoundRobin_repeatedly (p # ps) this ts = RegisterResetRoundRobin p this ts
   \<and> length (snd (RegisterResetRoundRobin_repeatedly (p # ps) this ts))
       = length ts
         + (if \<not> this_WasRegisteredForCacheReset this
               \<and> CalculateResetMsForStatePolicy p \<noteq> None
               \<and> CalculateResetMsForStatePolicy p \<noteq> Some (- 1)
            then 1 else 0)
   \<and> length (snd (RegisterResetRoundRobin_repeatedly (p # ps) this ts)) \<le> length ts + 1
   \<and> (CalculateResetMsForStatePolicy p \<noteq> None
         \<and> CalculateResetMsForStatePolicy p \<noteq> Some (- 1)
       \<longrightarrow> 0 < the (CalculateResetMsForStatePolicy p))"
proof -
  have once: "RegisterResetRoundRobin_repeatedly (p # ps) this ts = RegisterResetRoundRobin p this ts"
    by (rule repeatedly_Cons)
  have count: "length (snd (RegisterResetRoundRobin p this ts))
      = length ts
        + (if \<not> this_WasRegisteredForCacheReset this
              \<and> CalculateResetMsForStatePolicy p \<noteq> None
              \<and> CalculateResetMsForStatePolicy p \<noteq> Some (- 1)
           then 1 else 0)"
    by (simp add: RegisterResetRoundRobin_timers)
  have positive: "0 < the (CalculateResetMsForStatePolicy p)"
    if "CalculateResetMsForStatePolicy p \<noteq> None \<and> CalculateResetMsForStatePolicy p \<noteq> Some (- 1)"
  proof -
    from that obtain n where "CalculateResetMsForStatePolicy p = Some n" and "n \<noteq> - 1"
      by auto
    then show ?thesis
      by (simp add: interval_positive)
  qed
  show ?thesis
    unfolding once
    by (intro conjI impI)
      (simp_all add: RegisterResetRoundRobin_sets_latch RegisterResetRoundRobin_latched
        count positive)
qed

text \<open>
  The routine invoked three times on a new instance, with three finite policies and no
  timer yet: one timer. And invoked again on a constructed repository: nothing changes.
\<close>

theorem reset_registered_at_most_once_witness:
  "length (snd (RegisterResetRoundRobin_repeatedly
       [Member StaleAfterFiveSeconds, Member StaleAfterTenSeconds, Member StaleAfterOneHour]
       \<lparr>this_Name = ''s'', this_DoNotCache = False, this_WasRegisteredForCacheReset = False,
        this_CacheRefreshIntervalTimer = None\<rparr> [])) = 1
   \<and> this_WasRegisteredForCacheReset
       (fst (new_LegacyLocalCacheRepository specHelper ''s'' (Member StaleAfterFiveSeconds)
              freshWorld))
   \<and> RegisterResetRoundRobin (Member StaleAfterTenSeconds)
       (fst (new_LegacyLocalCacheRepository specHelper ''s'' (Member StaleAfterFiveSeconds)
              freshWorld))
       (timers (snd (new_LegacyLocalCacheRepository specHelper ''s'' (Member StaleAfterFiveSeconds)
              freshWorld)))
      = (fst (new_LegacyLocalCacheRepository specHelper ''s'' (Member StaleAfterFiveSeconds)
              freshWorld),
         timers (snd (new_LegacyLocalCacheRepository specHelper ''s'' (Member StaleAfterFiveSeconds)
              freshWorld)))"
proof -
  let ?new = "\<lparr>this_Name = ''s'', this_DoNotCache = False,
    this_WasRegisteredForCacheReset = False, this_CacheRefreshIntervalTimer = None\<rparr>"
  let ?R = "fst (new_LegacyLocalCacheRepository specHelper ''s'' (Member StaleAfterFiveSeconds)
    freshWorld)"
  let ?T = "timers (snd (new_LegacyLocalCacheRepository specHelper ''s''
    (Member StaleAfterFiveSeconds) freshWorld))"
  have latched: "this_WasRegisteredForCacheReset ?R"
    by (simp add: new_LegacyLocalCacheRepository_def split_def Let_def
        RegisterResetRoundRobin_sets_latch)
  note count = reset_registered_at_most_once
    [of "Member StaleAfterFiveSeconds" ?new "[]"
        "[Member StaleAfterTenSeconds, Member StaleAfterOneHour]",
     THEN conjunct2, THEN conjunct2, THEN conjunct2, THEN conjunct1]
  have one: "length (snd (RegisterResetRoundRobin_repeatedly
       [Member StaleAfterFiveSeconds, Member StaleAfterTenSeconds, Member StaleAfterOneHour]
       ?new [])) = 1"
    unfolding count by (simp add: CalculateResetMsForStatePolicy_def)
  note again = reset_registered_at_most_once
    [of "Member StaleAfterTenSeconds" ?R ?T, THEN conjunct2, THEN conjunct1, rule_format,
     OF latched]
  from one latched again show ?thesis
    by simp
qed

text \<open>
  C7. The claim: constructing a repository with a finite-interval policy starts exactly
  one repeating timer; after \<^verbatim>\<open>KillReset()\<close> no further reset tick fires and the cached
  data is not cleared; \<^verbatim>\<open>KillReset\<close> is idempotent and safe without a timer. The code
  of \<^verbatim>\<open>KillReset\<close> calls \<^verbatim>\<open>unref()\<close> on the timer, which cancels nothing. In a fresh
  process, over the backing store of the spec, a repository is built on the store \<^verbatim>\<open>s\<close>
  with StaleAfterFiveSeconds (one timer, of 5000 ms), \<^verbatim>\<open>v\<close> is written under \<^verbatim>\<open>k\<close>, and
  \<^verbatim>\<open>KillReset()\<close> is called: the timer is still there, only its hold on the process is
  gone, and the entry is still there; the timer's next tick clears the store.
\<close>

theorem KillReset_leaves_timer_firing:
  "timers (snd (new_LegacyLocalCacheRepository specHelper ''s'' (Member StaleAfterFiveSeconds)
       freshWorld))
     = [\<lparr>callbackName = ''s'', intervalMs = 5000, hasRef = True\<rparr>]
   \<and> KillReset
        (fst (new_LegacyLocalCacheRepository specHelper ''s'' (Member StaleAfterFiveSeconds)
           freshWorld))
        (timers (snd (new_LegacyLocalCacheRepository specHelper ''s'' (Member StaleAfterFiveSeconds)
           freshWorld)))
     = [\<lparr>callbackName = ''s'', intervalMs = 5000, hasRef = False\<rparr>]
   \<and> stores (snd (SetCachedValue specHelper
        (fst (new_LegacyLocalCacheRepository specHelper ''s'' (Member StaleAfterFiveSeconds)
           freshWorld))
        ''k'' ''v''
        (backing (snd (new_LegacyLocalCacheRepository specHelper ''s''
           (Member StaleAfterFiveSeconds) freshWorld))))) ''s''
     = Some [(''k'', ''v'')]
   \<and> stores (backing (fire specHelper 0
        \<lparr>backing = snd (SetCachedValue specHelper
           (fst (new_LegacyLocalCacheRepository specHelper ''s'' (Member StaleAfterFiveSeconds)
              freshWorld))
           ''k'' ''v''
           (backing (snd (new_LegacyLocalCacheRepository specHelper ''s''
              (Member StaleAfterFiveSeconds) freshWorld)))),
         timers = KillReset
           (fst (new_LegacyLocalCacheRepository specHelper ''s'' (Member StaleAfterFiveSeconds)
              freshWorld))
           (timers (snd (new_LegacyLocalCacheRepository specHelper ''s''
              (Member StaleAfterFiveSeconds) freshWorld)))\<rparr>)) ''s''
     = Some []"
  by (simp add: freshWorld_def construction_defs unref_def KillReset_def fire_def
      resetTick_def SetCachedValue_def store_defs Let_def)

end
